theory Spec2Isabelle
  imports Main
begin

section \<open>Data model\<close>

text \<open>
  The program under study is \<^verbatim>\<open>src/dataset_comparison_app.py\<close>. Its engine is the
  function \<^verbatim>\<open>compare_datasets\<close> (lines 45-85) and its column matcher is
  \<^verbatim>\<open>get_matching_columns\<close> (lines 87-92). Both work on pandas data frames.

  A cell of a data frame is a missing value, a number or a text. Numbers are integers
  here; floating point arithmetic plays no part in the comparison. Equality of cells is
  the equality of this datatype: in particular the missing value equals itself, which is
  how \<^verbatim>\<open>pandas.merge\<close> treats missing join keys (its documentation: rows whose key is
  null on both sides are matched against each other).
\<close>

datatype cell = NaN | Num int | Str string

text \<open>
  A data frame: its column labels in order, and its rows, each a list of cells in the
  order of the labels. The row index of pandas is not modelled: nothing in
  \<^verbatim>\<open>compare_datasets\<close> reads it.
\<close>

record frame =
  df_columns :: "string list"
  df_rows :: "cell list list"

text \<open>
  What every frame built by \<^verbatim>\<open>pandas.read_csv\<close> satisfies: labels are unique (the
  reader mangles repeated headers) and every row has one cell per label.
\<close>

definition rows_fit :: "frame \<Rightarrow> bool" where
  "rows_fit F = list_all (\<lambda>r. length r = length (df_columns F)) (df_rows F)"

definition wf_frame :: "frame \<Rightarrow> bool" where
  "wf_frame F = (distinct (df_columns F) \<and> rows_fit F)"

text \<open>\<^verbatim>\<open>pd.DataFrame()\<close>: the frame with no column and no row.\<close>

definition empty_frame :: frame where
  "empty_frame = \<lparr>df_columns = [], df_rows = []\<rparr>"

text \<open>
  A column mapping is a Python dict from left labels to right labels, in insertion order.
  It is an association list here; a dict has each key once.
\<close>

type_synonym column_mapping = "(string \<times> string) list"

definition is_dict :: "column_mapping \<Rightarrow> bool" where
  "is_dict m = distinct (map fst m)"

text \<open>
  The exceptions the body of \<^verbatim>\<open>compare_datasets\<close> can raise, named by their cause:
  \<^item> \<open>KeyError k\<close>: the join key \<open>k\<close> is not a column label (pandas: KeyError);
  \<^item> \<open>LabelNotUnique k\<close>: the join key \<open>k\<close> labels several columns (pandas: ValueError);
  \<^item> \<open>IndicatorNameInUse\<close>: an operand already has a column with a name the
    indicator needs (pandas: ValueError);
  \<^item> \<open>NoJoinKeys\<close>: the list of join keys is empty;
  \<^item> \<open>SuffixClash\<close>: a suffix added by the join produces a label that is there
    already (pandas: MergeError);
  \<^item> \<open>DatasetColumnClash\<close>: after line 65 two columns are labelled \<^verbatim>\<open>Dataset\<close>, so
    \<^verbatim>\<open>merged['Dataset']\<close> is a frame and line 66 cannot map it;
  \<^item> \<open>NoneObject\<close>: a method is called on a reference that holds no frame.
\<close>

datatype error =
    KeyError string
  | LabelNotUnique string
  | IndicatorNameInUse
  | NoJoinKeys
  | SuffixClash
  | DatasetColumnClash
  | NoneObject

section \<open>The pandas operations, on values\<close>

text \<open>
  \<^verbatim>\<open>DataFrame.rename(columns=m)\<close>: a label that is a key of \<open>m\<close> becomes the value
  \<open>m\<close> gives it; every other label stays. The rows are untouched.
\<close>

definition rename_label :: "column_mapping \<Rightarrow> string \<Rightarrow> string" where
  "rename_label m c = (case map_of m c of Some v \<Rightarrow> v | None \<Rightarrow> c)"

definition rename_columns :: "column_mapping \<Rightarrow> frame \<Rightarrow> frame" where
  "rename_columns m F = F\<lparr>df_columns := map (rename_label m) (df_columns F)\<rparr>"

text \<open>
  The position of a label among the labels, and the cell of a row under a label. A row
  of a data frame has a cell for every label (\<open>rows_fit\<close>), and the operations below
  look up only labels that they have found among the labels before.
\<close>

fun col_index :: "string list \<Rightarrow> string \<Rightarrow> nat" where
  "col_index [] c = 0"
| "col_index (x # xs) c = (if x = c then 0 else Suc (col_index xs c))"

definition cell_at :: "string list \<Rightarrow> cell list \<Rightarrow> string \<Rightarrow> cell" where
  "cell_at cols r c = r ! col_index cols c"

definition key_cells :: "string list \<Rightarrow> string list \<Rightarrow> cell list \<Rightarrow> cell list" where
  "key_cells cols ks r = map (cell_at cols r) ks"

definition nonkey_labels :: "string list \<Rightarrow> string list \<Rightarrow> string list" where
  "nonkey_labels ks cols = filter (\<lambda>c. c \<notin> set ks) cols"

definition nonkey_cells :: "string list \<Rightarrow> string list \<Rightarrow> cell list \<Rightarrow> cell list" where
  "nonkey_cells ks cols r = map snd (filter (\<lambda>p. fst p \<notin> set ks) (zip cols r))"

text \<open>
  \<^verbatim>\<open>pd.merge(left, right, on=ks, how='outer', indicator=True)\<close>.

  The library is not part of the repository; the definitions of this section follow its
  behaviour as documented for pandas 3. One refusal of pandas is outside the model:
  joining a key column of texts with one of numbers. It raises inside the body of
  \<^verbatim>\<open>compare_datasets\<close> and ends in its handler, like the exceptions modelled here;
  in the model such columns have no equal cells.

  Every key must label exactly one column of each operand.
\<close>

fun check_keys :: "string list \<Rightarrow> string list \<Rightarrow> string list \<Rightarrow> error option" where
  "check_keys lcols rcols [] = None"
| "check_keys lcols rcols (k # ks) =
     (if k \<notin> set rcols then Some (KeyError k)
      else if count_list rcols k \<noteq> 1 then Some (LabelNotUnique k)
      else if k \<notin> set lcols then Some (KeyError k)
      else if count_list lcols k \<noteq> 1 then Some (LabelNotUnique k)
      else check_keys lcols rcols ks)"

text \<open>
  With \<^verbatim>\<open>indicator=True\<close> no operand may have a column named like the indicator or
  like the two helper columns the join adds while it runs.
\<close>

definition reserved_labels :: "string list" where
  "reserved_labels = [''_left_indicator'', ''_right_indicator'', ''_merge'']"

text \<open>
  The labels of the result: the left labels, then the right labels that are not keys,
  then \<^verbatim>\<open>_merge\<close>. A label that is not a key and stands on both sides gets the
  suffix \<^verbatim>\<open>_x\<close> on the left and \<^verbatim>\<open>_y\<close> on the right.
\<close>

definition merged_columns :: "string list \<Rightarrow> string list \<Rightarrow> string list \<Rightarrow> string list" where
  "merged_columns lcols rcols ks =
     map (\<lambda>c. if c \<notin> set ks \<and> c \<in> set rcols then c @ ''_x'' else c) lcols @
     map (\<lambda>c. if c \<in> set lcols then c @ ''_y'' else c) (nonkey_labels ks rcols) @
     [''_merge'']"

text \<open>
  The join is refused when a suffix makes a label that is there already: a label that
  stands earlier among the labels of the same operand (unless the label was a repetition
  before the suffixes were added), or a label of the other operand that gets no suffix.
  The right operand is taken without its key columns.
\<close>

fun new_duplicate :: "(string \<Rightarrow> string) \<Rightarrow> string list \<Rightarrow> string list \<Rightarrow> bool" where
  "new_duplicate f seen [] = False"
| "new_duplicate f seen (c # cs) =
     ((f c \<in> set (map f seen) \<and> c \<notin> set seen) \<or> new_duplicate f (c # seen) cs)"

definition suffix_clash :: "string list \<Rightarrow> string list \<Rightarrow> string list \<Rightarrow> bool" where
  "suffix_clash lcols rcols ks =
     (new_duplicate (\<lambda>c. if c \<notin> set ks \<and> c \<in> set rcols then c @ ''_x'' else c) [] lcols \<or>
      new_duplicate (\<lambda>c. if c \<in> set lcols then c @ ''_y'' else c) []
        (nonkey_labels ks rcols) \<or>
      list_ex (\<lambda>c. c \<in> set (nonkey_labels ks rcols) \<and> c \<notin> set lcols)
        (map (\<lambda>c. if c \<notin> set ks \<and> c \<in> set rcols then c @ ''_x'' else c) lcols) \<or>
      list_ex (\<lambda>c. c \<in> set lcols \<and> c \<notin> set (nonkey_labels ks rcols))
        (map (\<lambda>c. if c \<in> set lcols then c @ ''_y'' else c) (nonkey_labels ks rcols)))"

text \<open>
  The rows of the result. A left row is paired with every right row that has the same
  key cells (indicator \<^verbatim>\<open>both\<close>); a left row with no partner is kept with missing
  values for the right columns (\<^verbatim>\<open>left_only\<close>); a right row with no partner is kept
  with its key cells under the key labels and missing values for the other left columns
  (\<^verbatim>\<open>right_only\<close>). The order of the rows is the model's choice (left rows in
  order, then the unmatched right rows): pandas orders the result by key, and nothing
  below depends on the order.
\<close>

definition same_key ::
  "string list \<Rightarrow> string list \<Rightarrow> string list \<Rightarrow> cell list \<Rightarrow> cell list \<Rightarrow> bool" where
  "same_key lcols rcols ks l r = (key_cells lcols ks l = key_cells rcols ks r)"

definition left_rows :: "frame \<Rightarrow> frame \<Rightarrow> string list \<Rightarrow> cell list \<Rightarrow> cell list list" where
  "left_rows L R ks l =
     (let partners = filter (same_key (df_columns L) (df_columns R) ks l) (df_rows R)
      in if partners = []
         then [l @ replicate (length (nonkey_labels ks (df_columns R))) NaN @ [Str ''left_only'']]
         else map (\<lambda>r. l @ nonkey_cells ks (df_columns R) r @ [Str ''both'']) partners)"

definition right_only_row :: "frame \<Rightarrow> frame \<Rightarrow> string list \<Rightarrow> cell list \<Rightarrow> cell list" where
  "right_only_row L R ks r =
     map (\<lambda>c. if c \<in> set ks then cell_at (df_columns R) r c else NaN) (df_columns L) @
     nonkey_cells ks (df_columns R) r @ [Str ''right_only'']"

definition merged_rows :: "frame \<Rightarrow> frame \<Rightarrow> string list \<Rightarrow> cell list list" where
  "merged_rows L R ks =
     concat (map (left_rows L R ks) (df_rows L)) @
     map (right_only_row L R ks)
       (filter (\<lambda>r. \<not> list_ex (\<lambda>l. same_key (df_columns L) (df_columns R) ks l r) (df_rows L))
          (df_rows R))"

definition merge_outer :: "frame \<Rightarrow> frame \<Rightarrow> string list \<Rightarrow> error + frame" where
  "merge_outer L R ks =
     (case check_keys (df_columns L) (df_columns R) ks of
        Some e \<Rightarrow> Inl e
      | None \<Rightarrow>
          if list_ex (\<lambda>c. c \<in> set (df_columns L) \<or> c \<in> set (df_columns R)) reserved_labels
          then Inl IndicatorNameInUse
          else if ks = [] then Inl NoJoinKeys
          else if suffix_clash (df_columns L) (df_columns R) ks then Inl SuffixClash
          else Inr \<lparr>df_columns = merged_columns (df_columns L) (df_columns R) ks,
                    df_rows = merged_rows L R ks\<rparr>)"

text \<open>
  Lines 66-70: \<^verbatim>\<open>merged['Dataset'] = merged['Dataset'].map({...})\<close>. The dict sends the
  three indicator values to texts built from the two file names; \<^verbatim>\<open>Series.map\<close> gives
  the missing value to anything the dict does not hold.
\<close>

definition only_in :: "string \<Rightarrow> string" where
  "only_in name = ''Only in '' @ name"

definition in_both :: "string \<Rightarrow> string \<Rightarrow> string" where
  "in_both left_filename right_filename =
     ''In both '' @ left_filename @ '' and '' @ right_filename"

definition dataset_labels :: "string \<Rightarrow> string \<Rightarrow> (string \<times> string) list" where
  "dataset_labels left_filename right_filename =
     [(''left_only'', only_in left_filename),
      (''right_only'', only_in right_filename),
      (''both'', in_both left_filename right_filename)]"

definition map_cell :: "(string \<times> string) list \<Rightarrow> cell \<Rightarrow> cell" where
  "map_cell d x =
     (case x of
        Str s \<Rightarrow> (case map_of d s of Some t \<Rightarrow> Str t | None \<Rightarrow> NaN)
      | _ \<Rightarrow> NaN)"

definition map_column :: "string \<Rightarrow> (string \<times> string) list \<Rightarrow> frame \<Rightarrow> error + frame" where
  "map_column c d F =
     (if count_list (df_columns F) c \<noteq> 1 then Inl DatasetColumnClash
      else Inr (F\<lparr>df_rows :=
             map (\<lambda>r. r[col_index (df_columns F) c := map_cell d (cell_at (df_columns F) r c)])
               (df_rows F)\<rparr>))"

text \<open>\<^verbatim>\<open>df[df[c] != v]\<close>: the rows whose cell under \<open>c\<close> differs from \<open>v\<close>.\<close>

definition select_ne :: "string \<Rightarrow> cell \<Rightarrow> frame \<Rightarrow> frame" where
  "select_ne c v F =
     F\<lparr>df_rows := filter (\<lambda>r. cell_at (df_columns F) r c \<noteq> v) (df_rows F)\<rparr>"

section \<open>Objects and the store\<close>

text \<open>
  Python passes data frames by reference, and line 66 assigns a column of a frame in
  place. The store maps references to frames; a new object gets the next reference.
  \<open>st_errors\<close> is what \<^verbatim>\<open>st.error\<close> has shown so far: an entry \<open>e\<close> stands for the
  message \<^verbatim>\<open>Error comparing datasets: \<close> followed by the text of the exception \<open>e\<close>.
\<close>

type_synonym ref = nat

record world =
  heap :: "ref \<Rightarrow> frame option"
  next_ref :: ref
  st_errors :: "error list"

text \<open>Every object of the store was allocated: its reference is below \<open>next_ref\<close>.\<close>

definition wf_world :: "world \<Rightarrow> bool" where
  "wf_world w = (\<forall>a. next_ref w \<le> a \<longrightarrow> heap w a = None)"

text \<open>
  A computation in a world either raises or returns, and leaves a world behind.
\<close>

type_synonym 'a action = "world \<Rightarrow> (error + 'a) \<times> world"

definition return_val :: "'a \<Rightarrow> 'a action" where
  "return_val x w = (Inr x, w)"

definition throw :: "error \<Rightarrow> 'a action" where
  "throw e w = (Inl e, w)"

definition and_then :: "'a action \<Rightarrow> ('a \<Rightarrow> 'b action) \<Rightarrow> 'b action" where
  "and_then m k w =
     (case m w of
        (Inl e, w') \<Rightarrow> (Inl e, w')
      | (Inr x, w') \<Rightarrow> k x w')"

definition load :: "ref \<Rightarrow> frame action" where
  "load a w = (case heap w a of None \<Rightarrow> (Inl NoneObject, w) | Some F \<Rightarrow> (Inr F, w))"

definition alloc :: "frame \<Rightarrow> world \<Rightarrow> ref \<times> world" where
  "alloc F w =
     (next_ref w, w\<lparr>heap := (heap w)(next_ref w \<mapsto> F), next_ref := Suc (next_ref w)\<rparr>)"

definition new_object :: "frame \<Rightarrow> ref action" where
  "new_object F w = (case alloc F w of (a, w') \<Rightarrow> (Inr a, w'))"

definition store :: "ref \<Rightarrow> frame \<Rightarrow> unit action" where
  "store a F w = (Inr (), w\<lparr>heap := (heap w)(a \<mapsto> F)\<rparr>)"

definition st_error :: "error \<Rightarrow> world \<Rightarrow> world" where
  "st_error e w = w\<lparr>st_errors := st_errors w @ [e]\<rparr>"

text \<open>The pandas operations on references. All but \<open>df_set_mapped\<close> build a new object.\<close>

definition df_copy :: "ref \<Rightarrow> ref action" where
  "df_copy a = and_then (load a) new_object"

definition df_rename :: "ref \<Rightarrow> column_mapping \<Rightarrow> ref action" where
  "df_rename a m = and_then (load a) (\<lambda>F. new_object (rename_columns m F))"

definition pd_merge :: "ref \<Rightarrow> ref \<Rightarrow> string list \<Rightarrow> ref action" where
  "pd_merge a b ks =
     and_then (load a) (\<lambda>L.
     and_then (load b) (\<lambda>R.
       case merge_outer L R ks of
         Inl e \<Rightarrow> throw e
       | Inr m \<Rightarrow> new_object m))"

definition df_set_mapped :: "ref \<Rightarrow> string \<Rightarrow> (string \<times> string) list \<Rightarrow> unit action" where
  "df_set_mapped a c d =
     and_then (load a) (\<lambda>F.
       case map_column c d F of
         Inl e \<Rightarrow> throw e
       | Inr F' \<Rightarrow> store a F')"

definition df_select_ne :: "ref \<Rightarrow> string \<Rightarrow> cell \<Rightarrow> ref action" where
  "df_select_ne a c v = and_then (load a) (\<lambda>F. new_object (select_ne c v F))"

definition df_len :: "ref \<Rightarrow> nat action" where
  "df_len a = and_then (load a) (\<lambda>F. return_val (length (df_rows F)))"

section \<open>The reconciliation engine\<close>

text \<open>
  The body of the \<^verbatim>\<open>try\<close> of \<^verbatim>\<open>compare_datasets\<close>, lines 48-81, statement by
  statement.
\<close>

definition compare_body ::
  "ref \<Rightarrow> ref \<Rightarrow> column_mapping \<Rightarrow> string \<Rightarrow> string \<Rightarrow> (bool \<times> ref) action" where
  "compare_body df1 df2 column_mapping left_filename right_filename =
     and_then (df_copy df1) (\<lambda>df1_copy.
     and_then (df_copy df2) (\<lambda>df2_copy.
     and_then (df_rename df2_copy column_mapping) (\<lambda>df2_copy.
     and_then (pd_merge df1_copy df2_copy (map fst column_mapping)) (\<lambda>merged.
     and_then (df_rename merged [(''_merge'', ''Dataset'')]) (\<lambda>merged.
     and_then (df_set_mapped merged ''Dataset''
                 (dataset_labels left_filename right_filename)) (\<lambda>_.
     and_then (df_select_ne merged ''Dataset''
                 (Str (in_both left_filename right_filename))) (\<lambda>unmatched.
     and_then (df_len unmatched) (\<lambda>n.
     and_then (df_len df1) (\<lambda>n1.
     and_then (df_len df2) (\<lambda>n2.
     and_then (df_select_ne merged ''Dataset''
                 (Str (in_both left_filename right_filename))) (\<lambda>mismatched.
     return_val (n = 0 \<and> n1 = n2, mismatched))))))))))))"

text \<open>
  \<^verbatim>\<open>compare_datasets\<close>: the body, and the handler of lines 83-85, which shows the
  exception with \<^verbatim>\<open>st.error\<close> and returns \<^verbatim>\<open>False\<close> with a new empty frame.
\<close>

definition compare_datasets ::
  "ref \<Rightarrow> ref \<Rightarrow> column_mapping \<Rightarrow> string \<Rightarrow> string \<Rightarrow> world \<Rightarrow> (bool \<times> ref) \<times> world" where
  "compare_datasets df1 df2 column_mapping left_filename right_filename w =
     (case compare_body df1 df2 column_mapping left_filename right_filename w of
        (Inr result, w') \<Rightarrow> (result, w')
      | (Inl e, w') \<Rightarrow>
          (case alloc empty_frame (st_error e w') of
             (a, w'') \<Rightarrow> ((False, a), w'')))"

section \<open>The column matcher\<close>

text \<open>\<^verbatim>\<open>get_matching_columns\<close>, lines 87-92.\<close>

definition get_matching_columns ::
  "string set \<Rightarrow> string set \<Rightarrow> string set \<times> string set \<times> string set" where
  "get_matching_columns left_cols right_cols =
     (let matching = left_cols \<inter> right_cols;
          left_only = left_cols - right_cols;
          right_only = right_cols - left_cols
      in (matching, left_only, right_only))"

section \<open>The values the engine computes\<close>

text \<open>
  The frame bound to \<^verbatim>\<open>merged\<close> once line 70 has run, as a function of the two input
  frames: the right frame renamed (line 53), the join (lines 56-62), the indicator
  column renamed (line 65) and mapped to the file names (lines 66-70). It is the
  ``outer-joined output'' the claims speak of; \<open>run_failure\<close> and \<open>run_success\<close> below
  tie it to \<open>compare_datasets\<close>.
\<close>

definition joined ::
  "frame \<Rightarrow> frame \<Rightarrow> column_mapping \<Rightarrow> string \<Rightarrow> string \<Rightarrow> error + frame" where
  "joined L R m left_filename right_filename =
     (case merge_outer L (rename_columns m R) (map fst m) of
        Inl e \<Rightarrow> Inl e
      | Inr J \<Rightarrow>
          map_column ''Dataset'' (dataset_labels left_filename right_filename)
            (rename_columns [(''_merge'', ''Dataset'')] J))"

text \<open>Lines 74 and 79: the rows of \<^verbatim>\<open>merged\<close> that are not labelled as in both.\<close>

definition differences :: "string \<Rightarrow> string \<Rightarrow> frame \<Rightarrow> frame" where
  "differences left_filename right_filename J =
     select_ne ''Dataset'' (Str (in_both left_filename right_filename)) J"

text \<open>The classification of a joined row: its cell in the column \<^verbatim>\<open>Dataset\<close>.\<close>

definition classification :: "frame \<Rightarrow> cell list \<Rightarrow> cell" where
  "classification J r = cell_at (df_columns J) r ''Dataset''"

text \<open>
  The result of a call, read off what \<open>compare_datasets\<close> returns: the flag, and the
  frame the returned reference holds in the world the call leaves behind.
\<close>

definition identical_of :: "(bool \<times> ref) \<times> world \<Rightarrow> bool" where
  "identical_of res = fst (fst res)"

definition differences_of :: "(bool \<times> ref) \<times> world \<Rightarrow> frame option" where
  "differences_of res = heap (snd res) (snd (fst res))"

text \<open>The mapping with the roles of key and value swapped.\<close>

definition invert :: "column_mapping \<Rightarrow> column_mapping" where
  "invert m = map (\<lambda>p. (snd p, fst p)) m"

section \<open>Notions used in the proofs\<close>

text \<open>The labels of a join but the indicator, and a joined row with its indicator mapped.\<close>

definition merged_labels :: "string list \<Rightarrow> string list \<Rightarrow> string list \<Rightarrow> string list" where
  "merged_labels lcols rcols ks =
     map (\<lambda>c. if c \<notin> set ks \<and> c \<in> set rcols then c @ ''_x'' else c) lcols @
     map (\<lambda>c. if c \<in> set lcols then c @ ''_y'' else c) (nonkey_labels ks rcols)"

definition relabel :: "string \<Rightarrow> string \<Rightarrow> cell list \<Rightarrow> cell list" where
  "relabel lf rf r = butlast r @ [map_cell (dataset_labels lf rf) (last r)]"

text \<open>
  When the body of \<open>compare_datasets\<close> runs to its end, for frames with unique labels:
  the mapping has an entry, it permutes its keys, the keys are labels of both frames,
  neither frame has a column with a reserved name, the join has no column
  \<^verbatim>\<open>Dataset\<close>, and no label that gets a suffix turns into a label that gets none.
  A label gets a suffix when it is a label of both frames and not a key.
\<close>

definition unsuffixed :: "string set \<Rightarrow> string set \<Rightarrow> string set \<Rightarrow> string \<Rightarrow> bool" where
  "unsuffixed K A B c = ((c \<in> A \<or> c \<in> B) \<and> (c \<notin> A \<or> c \<notin> B \<or> c \<in> K))"

definition suffix_taken :: "string set \<Rightarrow> string set \<Rightarrow> string set \<Rightarrow> bool" where
  "suffix_taken K A B =
     (\<exists>c. c \<in> A \<and> c \<in> B \<and> c \<notin> K \<and>
          (unsuffixed K A B (c @ ''_x'') \<or> unsuffixed K A B (c @ ''_y'')))"

definition dataset_taken :: "string set \<Rightarrow> string set \<Rightarrow> string set \<Rightarrow> bool" where
  "dataset_taken K A B =
     (''Dataset'' \<in> K \<or> (''Dataset'' \<in> A \<and> ''Dataset'' \<notin> B) \<or>
      (''Dataset'' \<in> B \<and> ''Dataset'' \<notin> A))"

definition joinable :: "column_mapping \<Rightarrow> string list \<Rightarrow> string list \<Rightarrow> bool" where
  "joinable m lcols rcols =
     (m \<noteq> [] \<and> set (map fst m) = set (map snd m) \<and>
      set (map fst m) \<subseteq> set lcols \<and> set (map fst m) \<subseteq> set rcols \<and>
      \<not> list_ex (\<lambda>c. c \<in> set lcols \<or> c \<in> set rcols) reserved_labels \<and>
      \<not> dataset_taken (set (map fst m)) (set lcols) (set rcols) \<and>
      \<not> suffix_taken (set (map fst m)) (set lcols) (set rcols))"

section \<open>Example inputs\<close>

text \<open>A world in which the caller has loaded two frames, at the references 0 and 1.\<close>

definition loaded :: "frame \<Rightarrow> frame \<Rightarrow> world" where
  "loaded L R = \<lparr>heap = (\<lambda>a. if a = 0 then Some L else if a = 1 then Some R else None),
                 next_ref = 2, st_errors = []\<rparr>"

text \<open>Scenario 2 of the specification: one row on each side, equal in \<open>id\<close> only.\<close>

definition scenario2_left :: frame where
  "scenario2_left = \<lparr>df_columns = [''id'', ''v''], df_rows = [[Num 1, Str ''a'']]\<rparr>"

definition scenario2_right :: frame where
  "scenario2_right = \<lparr>df_columns = [''id'', ''v''], df_rows = [[Num 1, Str ''z'']]\<rparr>"

text \<open>Scenario 3: the same row twice on the left, once on the right.\<close>

definition scenario3_left :: frame where
  "scenario3_left =
     \<lparr>df_columns = [''id'', ''v''], df_rows = [[Num 1, Str ''a''], [Num 1, Str ''a'']]\<rparr>"

definition scenario3_right :: frame where
  "scenario3_right = \<lparr>df_columns = [''id'', ''v''], df_rows = [[Num 1, Str ''a'']]\<rparr>"

definition all_columns :: column_mapping where
  "all_columns = [(''id'', ''id''), (''v'', ''v'')]"

text \<open>Two frames whose columns correspond crosswise.\<close>

definition swap_left :: frame where
  "swap_left = \<lparr>df_columns = [''a'', ''b''], df_rows = [[Num 1, Num 2]]\<rparr>"

definition swap_right :: frame where
  "swap_right = \<lparr>df_columns = [''a'', ''b''], df_rows = [[Num 2, Num 1]]\<rparr>"

text \<open>A right frame with a label that ends like a suffix of the join.\<close>

definition suffix_left :: frame where
  "suffix_left = \<lparr>df_columns = [''k'', ''v''], df_rows = [[Num 1, Num 1]]\<rparr>"

definition suffix_right :: frame where
  "suffix_right = \<lparr>df_columns = [''k'', ''v'', ''v_x''], df_rows = [[Num 1, Num 1, Num 1]]\<rparr>"

text \<open>The same single row under two different labels.\<close>

definition renamed_left :: frame where
  "renamed_left = \<lparr>df_columns = [''a''], df_rows = [[Num 1]]\<rparr>"

definition renamed_right :: frame where
  "renamed_right = \<lparr>df_columns = [''b''], df_rows = [[Num 1]]\<rparr>"

text \<open>Rows whose key is missing.\<close>

definition missing_left :: frame where
  "missing_left = \<lparr>df_columns = [''id'', ''v''], df_rows = [[NaN, Num 1]]\<rparr>"

definition missing_right :: frame where
  "missing_right = \<lparr>df_columns = [''id'', ''w''], df_rows = [[NaN, Num 2]]\<rparr>"

definition missing_only :: frame where
  "missing_only = \<lparr>df_columns = [''id''], df_rows = [[NaN]]\<rparr>"

section \<open>Running the engine\<close>

lemma wf_world_lt: "wf_world w \<Longrightarrow> heap w a = Some F \<Longrightarrow> a < next_ref w"
  unfolding wf_world_def by (metis not_le option.distinct(1))

text \<open>
  When the body raises, the call shows the exception and returns \<open>False\<close> with a new
  empty frame; when it does not, the call returns the flag of lines 73-76 and a new
  frame holding the differences. Either way the objects that were there stay as they
  were.
\<close>

lemma run_failure:
  assumes wf: "wf_world w" and h1: "heap w df1 = Some L" and h2: "heap w df2 = Some R"
    and j: "joined L R m lf rf = Inl e"
  shows "\<exists>a w'. compare_datasets df1 df2 m lf rf w = ((False, a), w') \<and>
           heap w' a = Some empty_frame \<and> next_ref w \<le> a \<and> wf_world w' \<and>
           (\<forall>b < next_ref w. heap w' b = heap w b) \<and> st_errors w' = st_errors w @ [e]"
proof -
  have l1: "df1 < next_ref w" and l2: "df2 < next_ref w"
    using wf h1 h2 by (auto dest: wf_world_lt)
  show ?thesis
    using j l1 l2 h1 h2 wf
    unfolding joined_def compare_datasets_def compare_body_def df_copy_def df_rename_def
      pd_merge_def df_set_mapped_def df_select_ne_def df_len_def and_then_def load_def
      new_object_def alloc_def store_def return_val_def throw_def st_error_def wf_world_def
    by (auto split: sum.splits)
qed

lemma run_success:
  assumes wf: "wf_world w" and h1: "heap w df1 = Some L" and h2: "heap w df2 = Some R"
    and j: "joined L R m lf rf = Inr J"
  shows "\<exists>a w'. compare_datasets df1 df2 m lf rf w =
             ((df_rows (differences lf rf J) = [] \<and>
               length (df_rows L) = length (df_rows R), a), w') \<and>
           heap w' a = Some (differences lf rf J) \<and> next_ref w \<le> a \<and> wf_world w' \<and>
           (\<forall>b < next_ref w. heap w' b = heap w b) \<and> st_errors w' = st_errors w"
proof -
  have l1: "df1 < next_ref w" and l2: "df2 < next_ref w"
    using wf h1 h2 by (auto dest: wf_world_lt)
  show ?thesis
    using j l1 l2 h1 h2 wf
    unfolding joined_def differences_def compare_datasets_def compare_body_def df_copy_def
      df_rename_def pd_merge_def df_set_mapped_def df_select_ne_def df_len_def and_then_def
      load_def new_object_def alloc_def store_def return_val_def throw_def st_error_def wf_world_def
    by (auto split: sum.splits)
qed

section \<open>The join\<close>

lemma suffix_ne:
  "c @ ''_x'' \<noteq> ''_merge''" "c @ ''_y'' \<noteq> ''_merge''"
  "c @ ''_x'' \<noteq> ''Dataset''" "c @ ''_y'' \<noteq> ''Dataset''"
  by (auto dest: arg_cong[where f=last])

lemma length_nonkey_cells:
  "length r = length cols \<Longrightarrow> length (nonkey_cells ks cols r) = length (nonkey_labels ks cols)"
  unfolding nonkey_cells_def nonkey_labels_def
proof (induction cols arbitrary: r)
  case Nil then show ?case by simp
next
  case (Cons c cols)
  then obtain x r' where "r = x # r'" by (cases r) auto
  with Cons show ?case by simp
qed

lemma rows_fit_rename [simp]: "rows_fit (rename_columns m R) = rows_fit R"
  by (simp add: rows_fit_def rename_columns_def)

lemma merged_row_shape:
  assumes "rows_fit L" "rows_fit R" "r \<in> set (merged_rows L R ks)"
  shows "\<exists>body ind. r = body @ [Str ind] \<and> ind \<in> {''left_only'', ''right_only'', ''both''} \<and>
            length body = length (df_columns L) + length (nonkey_labels ks (df_columns R))"
  using assms
  unfolding merged_rows_def left_rows_def right_only_row_def rows_fit_def Let_def
  by (auto simp: list_all_iff length_nonkey_cells split: if_splits)

lemma col_index_append_last:
  "c \<notin> set A \<Longrightarrow> col_index (A @ [c]) c = length A"
  by (induction A) auto

lemma merged_columns_labels:
  "merged_columns lcols rcols ks = merged_labels lcols rcols ks @ [''_merge'']"
  by (simp add: merged_columns_def merged_labels_def)

lemma merge_indicator_fresh:
  assumes "''_merge'' \<notin> set lcols" "''_merge'' \<notin> set rcols"
  shows "''_merge'' \<notin> set (merged_labels lcols rcols ks)"
  using assms by (auto simp: merged_labels_def nonkey_labels_def suffix_ne)

lemma rename_indicator:
  "''_merge'' \<notin> set A \<Longrightarrow>
   map (rename_label [(''_merge'', ''Dataset'')]) (A @ [''_merge'']) = A @ [''Dataset'']"
  by (induction A) (auto simp: rename_label_def)

text \<open>What a successful join looks like.\<close>

lemma joined_success:
  assumes j: "joined L R m lf rf = Inr J" and fl: "rows_fit L" and fr: "rows_fit R"
  shows "check_keys (df_columns L) (df_columns (rename_columns m R)) (map fst m) = None"
    and "''_merge'' \<notin> set (df_columns L)"
    and "''_merge'' \<notin> set (df_columns (rename_columns m R))"
    and "m \<noteq> []"
    and "''Dataset'' \<notin> set (merged_labels (df_columns L) (df_columns (rename_columns m R)) (map fst m))"
    and "df_columns J =
           merged_labels (df_columns L) (df_columns (rename_columns m R)) (map fst m) @ [''Dataset'']"
    and "df_rows J = map (relabel lf rf) (merged_rows L (rename_columns m R) (map fst m))"
proof -
  let ?R = "rename_columns m R" and ?ks = "map fst m"
  let ?A = "merged_labels (df_columns L) (df_columns ?R) ?ks"
  from j obtain J0 where m0: "merge_outer L ?R ?ks = Inr J0"
    and mc: "map_column ''Dataset'' (dataset_labels lf rf)
               (rename_columns [(''_merge'', ''Dataset'')] J0) = Inr J"
    by (auto simp: joined_def split: sum.splits)
  from m0 show ck: "check_keys (df_columns L) (df_columns ?R) ?ks = None"
    and nl: "''_merge'' \<notin> set (df_columns L)" and nr: "''_merge'' \<notin> set (df_columns ?R)"
    and "m \<noteq> []"
    by (auto simp: merge_outer_def reserved_labels_def split: option.splits if_splits)
  from m0 have J0: "J0 = \<lparr>df_columns = ?A @ [''_merge''], df_rows = merged_rows L ?R ?ks\<rparr>"
    by (auto simp: merge_outer_def merged_columns_labels split: option.splits if_splits)
  have fresh: "''_merge'' \<notin> set ?A" using nl nr by (rule merge_indicator_fresh)
  have cols1: "df_columns (rename_columns [(''_merge'', ''Dataset'')] J0) = ?A @ [''Dataset'']"
    using rename_indicator[OF fresh] by (simp add: J0 rename_columns_def)
  from mc cols1 show nd: "''Dataset'' \<notin> set ?A"
    by (auto simp: map_column_def count_list_0_iff split: if_splits)
  from mc cols1 show "df_columns J = ?A @ [''Dataset'']"
    by (auto simp: map_column_def split: if_splits)
  have len: "length ?A = length (df_columns L) + length (nonkey_labels ?ks (df_columns ?R))"
    by (simp add: merged_labels_def)
  have row: "r[length ?A := map_cell d (r ! length ?A)] = butlast r @ [map_cell d (last r)]"
    if "r \<in> set (merged_rows L ?R ?ks)" for r d
  proof -
    from merged_row_shape[OF fl _ that] fr obtain body ind where
      "r = body @ [Str ind]" "length ?A = length body"
      using len by auto
    then show ?thesis by (simp add: nth_append)
  qed
  from mc cols1 nd have "df_rows J =
      map (\<lambda>r. r[length ?A := map_cell (dataset_labels lf rf) (r ! length ?A)])
        (merged_rows L ?R ?ks)"
    by (auto simp: map_column_def cell_at_def col_index_append_last J0 rename_columns_def
        split: if_splits)
  also have "\<dots> = map (relabel lf rf) (merged_rows L ?R ?ks)"
    by (rule map_cong) (auto simp: relabel_def row)
  finally show "df_rows J = map (relabel lf rf) (merged_rows L ?R ?ks)" .
qed


lemma left_rows_all_both:
  "(\<forall>r0 \<in> set (left_rows L R ks l). last r0 = Str ''both'') \<longleftrightarrow>
   (\<exists>r \<in> set (df_rows R). same_key (df_columns L) (df_columns R) ks l r)"
  unfolding left_rows_def Let_def
  by (auto simp: filter_empty_conv)

lemma last_right_only_row: "last (right_only_row L R ks r) = Str ''right_only''"
  by (simp add: right_only_row_def)

lemma merged_all_both:
  "(\<forall>r0 \<in> set (merged_rows L R ks). last r0 = Str ''both'') \<longleftrightarrow>
   (\<forall>l \<in> set (df_rows L). \<exists>r \<in> set (df_rows R). same_key (df_columns L) (df_columns R) ks l r) \<and>
   (\<forall>r \<in> set (df_rows R). \<exists>l \<in> set (df_rows L). same_key (df_columns L) (df_columns R) ks l r)"
proof -
  have "(\<forall>r0 \<in> set (merged_rows L R ks). last r0 = Str ''both'') \<longleftrightarrow>
        (\<forall>l \<in> set (df_rows L). \<forall>r0 \<in> set (left_rows L R ks l). last r0 = Str ''both'') \<and>
        (\<forall>r \<in> set (df_rows R).
            list_ex (\<lambda>l. same_key (df_columns L) (df_columns R) ks l r) (df_rows L))"
  proof -
    have "(\<forall>r0 \<in> right_only_row L R ks ` X. last r0 = Str ''both'') \<longleftrightarrow> X = {}" for X
      by (auto simp: last_right_only_row)
    then show ?thesis
      unfolding merged_rows_def by (auto simp: ball_Un)
  qed
  then show ?thesis
    by (simp add: left_rows_all_both list_ex_iff)
qed

lemma labels_distinct:
  "only_in a \<noteq> in_both lf rf" "in_both lf rf \<noteq> only_in a"
  by (simp_all add: only_in_def in_both_def)

lemma map_cell_labels:
  "map_cell (dataset_labels lf rf) (Str ''left_only'') = Str (only_in lf)"
  "map_cell (dataset_labels lf rf) (Str ''right_only'') = Str (only_in rf)"
  "map_cell (dataset_labels lf rf) (Str ''both'') = Str (in_both lf rf)"
  by (simp_all add: map_cell_def dataset_labels_def)

lemma joined_row:
  assumes j: "joined L R m lf rf = Inr J" and fl: "rows_fit L" and fr: "rows_fit R"
    and r0: "r0 \<in> set (merged_rows L (rename_columns m R) (map fst m))"
  shows "classification J (relabel lf rf r0) = map_cell (dataset_labels lf rf) (last r0)"
    and "last r0 \<in> {Str ''left_only'', Str ''right_only'', Str ''both''}"
proof -
  let ?R = "rename_columns m R" and ?ks = "map fst m"
  let ?A = "merged_labels (df_columns L) (df_columns ?R) ?ks"
  have len: "length ?A = length (df_columns L) + length (nonkey_labels ?ks (df_columns ?R))"
    by (simp add: merged_labels_def)
  from merged_row_shape[OF fl _ r0] fr obtain body ind where
    r: "r0 = body @ [Str ind]" "length ?A = length body"
       "ind \<in> {''left_only'', ''right_only'', ''both''}"
    using len by auto
  from r show "last r0 \<in> {Str ''left_only'', Str ''right_only'', Str ''both''}" by auto
  from joined_success(5,6)[OF j fl fr] r
  show "classification J (relabel lf rf r0) = map_cell (dataset_labels lf rf) (last r0)"
    by (simp add: classification_def cell_at_def col_index_append_last relabel_def nth_append)
qed

lemma differences_rows:
  "df_rows (differences lf rf J) =
     filter (\<lambda>r. classification J r \<noteq> Str (in_both lf rf)) (df_rows J)"
  by (simp add: differences_def select_ne_def classification_def)

lemma differences_empty_iff:
  assumes j: "joined L R m lf rf = Inr J" and fl: "rows_fit L" and fr: "rows_fit R"
  shows "df_rows (differences lf rf J) = [] \<longleftrightarrow>
    (\<forall>l \<in> set (df_rows L). \<exists>r \<in> set (df_rows R).
        same_key (df_columns L) (df_columns (rename_columns m R)) (map fst m) l r) \<and>
    (\<forall>r \<in> set (df_rows R). \<exists>l \<in> set (df_rows L).
        same_key (df_columns L) (df_columns (rename_columns m R)) (map fst m) l r)"
proof -
  let ?R = "rename_columns m R" and ?ks = "map fst m"
  have "df_rows (differences lf rf J) = [] \<longleftrightarrow>
        (\<forall>r0 \<in> set (merged_rows L ?R ?ks). classification J (relabel lf rf r0) = Str (in_both lf rf))"
    by (simp add: differences_rows joined_success(7)[OF j fl fr] filter_empty_conv)
  also have "\<dots> \<longleftrightarrow> (\<forall>r0 \<in> set (merged_rows L ?R ?ks). last r0 = Str ''both'')"
  proof (rule ball_cong[OF refl])
    fix r0 assume r0: "r0 \<in> set (merged_rows L ?R ?ks)"
    from joined_row[OF j fl fr r0]
    show "classification J (relabel lf rf r0) = Str (in_both lf rf) \<longleftrightarrow> last r0 = Str ''both''"
      by (auto simp: map_cell_labels labels_distinct)
  qed
  also have "\<dots> \<longleftrightarrow>
    (\<forall>l \<in> set (df_rows L). \<exists>r \<in> set (df_rows R).
        same_key (df_columns L) (df_columns ?R) ?ks l r) \<and>
    (\<forall>r \<in> set (df_rows R). \<exists>l \<in> set (df_rows L).
        same_key (df_columns L) (df_columns ?R) ?ks l r)"
    using merged_all_both[of L ?R ?ks] by (simp add: rename_columns_def)
  finally show ?thesis .
qed

lemma invert_simps [simp]:
  "map fst (invert m) = map snd m" "map snd (invert m) = map fst m" "invert (invert m) = m"
  "invert m = [] \<longleftrightarrow> m = []"
  by (simp_all add: invert_def comp_def)

lemma check_keys_None:
  "check_keys lcols rcols ks = None \<longleftrightarrow>
     (\<forall>k \<in> set ks. count_list rcols k = 1 \<and> count_list lcols k = 1)"
  by (induction ks) (auto simp: count_list_0_iff)

lemma count_list_distinct:
  "distinct xs \<Longrightarrow> count_list xs x = (if x \<in> set xs then 1 else 0)"
  by (induction xs) auto

lemma rename_label_key:
  "is_dict m \<Longrightarrow> (k, v) \<in> set m \<Longrightarrow> rename_label m k = v"
  by (simp add: rename_label_def is_dict_def)

lemma rename_label_other:
  "c \<notin> set (map fst m) \<Longrightarrow> rename_label m c = c"
  by (simp add: rename_label_def map_of_eq_None_iff[THEN iffD2])

lemma rename_label_image_keys:
  "is_dict m \<Longrightarrow> rename_label m ` set (map fst m) = set (map snd m)"
  by (force simp: rename_label_key image_iff)

text \<open>If the renamed labels hold every key, the mapping permutes its keys.\<close>

lemma keys_in_renamed:
  assumes d: "is_dict m" and sub: "set (map fst m) \<subseteq> set (map (rename_label m) cols)"
  shows "set (map fst m) = set (map snd m)" and "set (map fst m) \<subseteq> set cols"
proof -
  let ?K = "set (map fst m)" and ?C = "set cols" and ?f = "rename_label m"
  have 1: "?K \<subseteq> ?f ` (?K \<inter> ?C)"
  proof
    fix k assume k: "k \<in> ?K"
    with sub obtain c where c: "c \<in> ?C" "k = ?f c" by auto
    have "c \<in> ?K"
    proof (rule ccontr)
      assume "c \<notin> ?K"
      then have "?f c = c" by (rule rename_label_other)
      with c k \<open>c \<notin> ?K\<close> show False by simp
    qed
    with c show "k \<in> ?f ` (?K \<inter> ?C)" by blast
  qed
  have "card ?K \<le> card (?f ` (?K \<inter> ?C))" using 1 by (intro card_mono) auto
  also have "\<dots> \<le> card (?K \<inter> ?C)" by (intro card_image_le) auto
  finally have "card ?K \<le> card (?K \<inter> ?C)" .
  then have "?K \<inter> ?C = ?K" by (intro card_seteq) auto
  then show "?K \<subseteq> ?C" by blast
  have "?K \<subseteq> ?f ` ?K" using 1 by blast
  then have 2: "?K \<subseteq> set (map snd m)" using rename_label_image_keys[OF d] by simp
  have "card (set (map snd m)) \<le> length (map snd m)" by (rule card_length)
  also have "\<dots> = card ?K" using d distinct_card[of "map fst m"] by (simp add: is_dict_def)
  finally show "?K = set (map snd m)" using 2 by (intro card_seteq) auto
qed


lemma rename_invert_left:
  assumes d: "is_dict m" and dv: "distinct (map snd m)" and eq: "set (map fst m) = set (map snd m)"
  shows "rename_label (invert m) (rename_label m c) = c"
proof (cases "c \<in> set (map fst m)")
  case True
  then obtain v where cv: "(c, v) \<in> set m" by auto
  then have "(v, c) \<in> set (invert m)" by (force simp: invert_def)
  moreover have "is_dict (invert m)" using dv by (simp add: is_dict_def)
  ultimately have "rename_label (invert m) v = c" by (rule rename_label_key[rotated])
  with rename_label_key[OF d cv] show ?thesis by simp
next
  case False
  then have "c \<notin> set (map fst (invert m))" using eq by simp
  then have "rename_label (invert m) c = c" by (rule rename_label_other)
  with rename_label_other[OF False] show ?thesis by simp
qed

lemma rename_label_inj:
  assumes "is_dict m" "distinct (map snd m)" "set (map fst m) = set (map snd m)"
  shows "inj (rename_label m)"
  by (rule inj_on_inverseI[where g = "rename_label (invert m)"]) (rule rename_invert_left[OF assms])

lemma rename_label_key_iff:
  assumes "is_dict m" "distinct (map snd m)" "set (map fst m) = set (map snd m)"
  shows "rename_label m c \<in> set (map fst m) \<longleftrightarrow> c \<in> set (map fst m)"
proof
  assume "c \<in> set (map fst m)"
  then have "rename_label m c \<in> set (map snd m)"
    using rename_label_image_keys[OF assms(1)] by blast
  then show "rename_label m c \<in> set (map fst m)" using assms(3) by simp
next
  assume "rename_label m c \<in> set (map fst m)"
  show "c \<in> set (map fst m)"
  proof (rule ccontr)
    assume "c \<notin> set (map fst m)"
    from rename_label_other[OF this] \<open>rename_label m c \<in> set (map fst m)\<close> this
    show False by simp
  qed
qed

lemma set_renamed:
  assumes d: "is_dict m" and dv: "distinct (map snd m)" and eq: "set (map fst m) = set (map snd m)"
    and sub: "set (map fst m) \<subseteq> set cols"
  shows "set (map (rename_label m) cols) = set cols"
proof -
  let ?K = "set (map fst m)" and ?f = "rename_label m"
  have "set cols = ?K \<union> (set cols - ?K)" using sub by blast
  then have "?f ` set cols = ?f ` ?K \<union> ?f ` (set cols - ?K)" by (metis image_Un)
  also have "?f ` ?K = ?K" using rename_label_image_keys[OF d] eq by simp
  also have "?f ` (set cols - ?K) = set cols - ?K"
    by (force simp: rename_label_other image_iff)
  finally show ?thesis using sub by auto
qed

lemma col_index_map_inj:
  "inj f \<Longrightarrow> col_index (map f cols) (f c) = col_index cols c"
  by (induction cols) (auto dest: injD)

lemma count_one_mem: "count_list xs x = 1 \<Longrightarrow> x \<in> set xs"
  by (metis count_notin zero_neq_one)

lemma ck1:
  assumes d: "is_dict m"
   and c: "check_keys lcols (map (rename_label m) rcols) (map fst m) = None"
  shows "set (map fst m) = set (map snd m) \<and> set (map fst m) \<subseteq> set lcols \<and>
            set (map fst m) \<subseteq> set rcols"
proof -
  let ?f = "rename_label m" and ?ks = "map fst m"
  from c have "\<forall>k \<in> set ?ks. count_list (map ?f rcols) k = 1 \<and> count_list lcols k = 1"
      by (simp only: check_keys_None)
  then have in_r: "set ?ks \<subseteq> set (map ?f rcols)"
      and in_l: "set ?ks \<subseteq> set lcols"
      by (blast dest: count_one_mem)+
  from keys_in_renamed[OF d in_r] in_l show ?thesis by simp
qed

lemma ck2:
  assumes d: "is_dict m" and dv: "distinct (map snd m)"
   and wl: "distinct lcols" and wr: "distinct rcols"
   and eq: "set (map fst m) = set (map snd m)" and sl: "set (map fst m) \<subseteq> set lcols"
   and sr:  "set (map fst m) \<subseteq> set rcols"
  shows "check_keys lcols (map (rename_label m) rcols) (map fst m) = None"
proof -
  let ?f = "rename_label m" and ?ks = "map fst m"
  have inj: "inj ?f" by (rule rename_label_inj[OF d dv eq])
  have "inj_on ?f (set rcols)" using inj by (rule inj_on_subset) simp
  then have dr: "distinct (map ?f rcols)"
    using wr by (simp add: distinct_map)
  have sr': "set (map ?f rcols) = set rcols"
    by (rule set_renamed[OF d dv eq sr])
  have "count_list (map ?f rcols) k = 1" if "k \<in> set ?ks" for k
  proof -
    from that sr sr' have "k \<in> set (map ?f rcols)" by blast
    then show ?thesis by (simp only: count_list_distinct[OF dr] if_True)
  qed
  moreover have "count_list lcols k = 1" if "k \<in> set ?ks" for k
  proof -
    from that sl have "k \<in> set lcols" by blast
    then show ?thesis by (simp only: count_list_distinct[OF wl] if_True)
  qed
  ultimately show ?thesis
    by (simp only: check_keys_None) blast
qed

lemma dataset_in_merged_labels:
  "''Dataset'' \<in> set (merged_labels lcols rcols ks) \<longleftrightarrow>
     (''Dataset'' \<in> set lcols \<and> (''Dataset'' \<in> set ks \<or> ''Dataset'' \<notin> set rcols)) \<or>
     (''Dataset'' \<in> set rcols \<and> ''Dataset'' \<notin> set ks \<and> ''Dataset'' \<notin> set lcols)"
  by (auto simp: merged_labels_def nonkey_labels_def suffix_ne)

lemma rename_columns_sel [simp]:
  "df_columns (rename_columns m F) = map (rename_label m) (df_columns F)"
  "df_rows (rename_columns m F) = df_rows F"
  by (simp_all add: rename_columns_def)

lemma reserved_merge:
  "\<not> list_ex (\<lambda>c. c \<in> set lcols \<or> c \<in> set rcols) reserved_labels \<Longrightarrow>
   ''_merge'' \<notin> set lcols \<and> ''_merge'' \<notin> set rcols"
  by (simp add: reserved_labels_def)

lemma joined_Inr_iff:
  "(\<exists>J. joined L R m lf rf = Inr J) \<longleftrightarrow>
     check_keys (df_columns L) (map (rename_label m) (df_columns R)) (map fst m) = None \<and>
     \<not> list_ex (\<lambda>c. c \<in> set (df_columns L) \<or> c \<in> set (map (rename_label m) (df_columns R)))
         reserved_labels \<and>
     m \<noteq> [] \<and>
     \<not> suffix_clash (df_columns L) (map (rename_label m) (df_columns R)) (map fst m) \<and>
     ''Dataset'' \<notin> set (merged_labels (df_columns L) (map (rename_label m) (df_columns R))
                          (map fst m))"
proof -
  let ?R = "rename_columns m R" and ?ks = "map fst m"
  let ?A = "merged_labels (df_columns L) (map (rename_label m) (df_columns R)) ?ks"
  let ?pre = "check_keys (df_columns L) (map (rename_label m) (df_columns R)) ?ks = None \<and>
     \<not> list_ex (\<lambda>c. c \<in> set (df_columns L) \<or> c \<in> set (map (rename_label m) (df_columns R)))
         reserved_labels \<and>
     m \<noteq> [] \<and>
     \<not> suffix_clash (df_columns L) (map (rename_label m) (df_columns R)) ?ks"
  show ?thesis
  proof (cases ?pre)
    case False
    then have "\<exists>e. merge_outer L ?R ?ks = Inl e"
      by (auto simp: merge_outer_def split: option.splits)
    then have "\<exists>e. joined L R m lf rf = Inl e" by (auto simp: joined_def)
    with False show ?thesis by auto
  next
    case True
    then have m0: "merge_outer L ?R ?ks =
        Inr \<lparr>df_columns = ?A @ [''_merge''], df_rows = merged_rows L ?R ?ks\<rparr>"
      by (simp add: merge_outer_def merged_columns_labels)
    have fresh: "''_merge'' \<notin> set ?A"
      using True reserved_merge[of "df_columns L" "map (rename_label m) (df_columns R)"]
      by (intro merge_indicator_fresh) blast+
    have "rename_columns [(''_merge'', ''Dataset'')]
            \<lparr>df_columns = ?A @ [''_merge''], df_rows = merged_rows L ?R ?ks\<rparr> =
          \<lparr>df_columns = ?A @ [''Dataset''], df_rows = merged_rows L ?R ?ks\<rparr>"
      using rename_indicator[OF fresh] by (simp add: rename_columns_def)
    then have "joined L R m lf rf =
        map_column ''Dataset'' (dataset_labels lf rf)
          \<lparr>df_columns = ?A @ [''Dataset''], df_rows = merged_rows L ?R ?ks\<rparr>"
      by (simp add: joined_def m0)
    then have "(\<exists>J. joined L R m lf rf = Inr J) \<longleftrightarrow> ''Dataset'' \<notin> set ?A"
      by (simp add: map_column_def count_list_0_iff)
    with True show ?thesis by simp
  qed
qed

text \<open>The refusal for suffixes, for operands with unique labels.\<close>

lemma new_duplicate_iff:
  "distinct cs \<Longrightarrow> set cs \<inter> set seen = {} \<Longrightarrow>
   new_duplicate f seen cs \<longleftrightarrow>
     (\<exists>c \<in> set cs. \<exists>c' \<in> set seen \<union> set cs. c' \<noteq> c \<and> f c' = f c)"
proof (induction cs arbitrary: seen)
  case Nil
  then show ?case by simp
next
  case (Cons c cs)
  have d: "distinct cs" and i: "set cs \<inter> set (c # seen) = {}" and n: "c \<notin> set seen"
    using Cons.prems by auto
  have "new_duplicate f seen (c # cs) \<longleftrightarrow>
        f c \<in> f ` set seen \<or>
        (\<exists>x \<in> set cs. \<exists>x' \<in> set (c # seen) \<union> set cs. x' \<noteq> x \<and> f x' = f x)"
    using Cons.IH[OF d i] n by simp
  also have "\<dots> \<longleftrightarrow>
     (\<exists>x \<in> set (c # cs). \<exists>x' \<in> set seen \<union> set (c # cs). x' \<noteq> x \<and> f x' = f x)"
    using n Cons.prems(1) by (auto simp: image_iff) metis+
  finally show ?case .
qed

lemma new_duplicate_distinct:
  "distinct cs \<Longrightarrow>
   new_duplicate f [] cs \<longleftrightarrow> (\<exists>c \<in> set cs. \<exists>c' \<in> set cs. c' \<noteq> c \<and> f c' = f c)"
  using new_duplicate_iff[of cs "[]" f] by simp

lemma set_nonkey_labels: "set (nonkey_labels ks cols) = set cols - set ks"
  by (auto simp: nonkey_labels_def)

lemma distinct_nonkey_labels: "distinct cols \<Longrightarrow> distinct (nonkey_labels ks cols)"
  by (simp add: nonkey_labels_def)

lemma left_duplicate:
  assumes "distinct lcols"
  shows "new_duplicate (\<lambda>c. if c \<notin> K \<and> c \<in> B then c @ ''_x'' else c) [] lcols \<longleftrightarrow>
     (\<exists>c \<in> set lcols. c \<notin> K \<and> c \<in> B \<and> c @ ''_x'' \<in> set lcols \<and>
         (c @ ''_x'' \<in> K \<or> c @ ''_x'' \<notin> B))"
  (is "?l \<longleftrightarrow> ?r")
proof
  assume ?l
  then obtain c c' where m: "c \<in> set lcols" "c' \<in> set lcols" "c' \<noteq> c"
    and e: "(if c' \<notin> K \<and> c' \<in> B then c' @ ''_x'' else c') =
            (if c \<notin> K \<and> c \<in> B then c @ ''_x'' else c)"
    unfolding new_duplicate_distinct[OF assms] by blast
  show ?r
  proof (cases "c \<notin> K \<and> c \<in> B")
    case True
    with e m have "\<not> (c' \<notin> K \<and> c' \<in> B)" and "c' = c @ ''_x''"
      by (auto split: if_splits)
    with True m show ?thesis by blast
  next
    case False
    with e m have "c' \<notin> K \<and> c' \<in> B" and "c = c' @ ''_x''"
      by (auto split: if_splits)
    with False m show ?thesis by blast
  qed
next
  assume ?r
  then obtain c where c: "c \<in> set lcols" "c \<notin> K" "c \<in> B" "c @ ''_x'' \<in> set lcols"
    "c @ ''_x'' \<in> K \<or> c @ ''_x'' \<notin> B" by blast
  have "c @ ''_x'' \<noteq> c" by simp
  moreover have "(if c @ ''_x'' \<notin> K \<and> c @ ''_x'' \<in> B then (c @ ''_x'') @ ''_x'' else c @ ''_x'') =
        (if c \<notin> K \<and> c \<in> B then c @ ''_x'' else c)"
    using c by auto
  ultimately show ?l
    unfolding new_duplicate_distinct[OF assms] using c(1,4) by blast
qed

lemma right_duplicate:
  assumes "distinct rn"
  shows "new_duplicate (\<lambda>c. if c \<in> A then c @ ''_y'' else c) [] rn \<longleftrightarrow>
     (\<exists>c \<in> set rn. c \<in> A \<and> c @ ''_y'' \<in> set rn \<and> c @ ''_y'' \<notin> A)"
  (is "?l \<longleftrightarrow> ?r")
proof
  assume ?l
  then obtain c c' where m: "c \<in> set rn" "c' \<in> set rn" "c' \<noteq> c"
    and e: "(if c' \<in> A then c' @ ''_y'' else c') = (if c \<in> A then c @ ''_y'' else c)"
    unfolding new_duplicate_distinct[OF assms] by blast
  show ?r
  proof (cases "c \<in> A")
    case True
    with e m have "c' \<notin> A" and "c' = c @ ''_y''" by (auto split: if_splits)
    with True m show ?thesis by blast
  next
    case False
    with e m have "c' \<in> A" and "c = c' @ ''_y''" by (auto split: if_splits)
    with False m show ?thesis by blast
  qed
next
  assume ?r
  then obtain c where c: "c \<in> set rn" "c \<in> A" "c @ ''_y'' \<in> set rn" "c @ ''_y'' \<notin> A"
    by blast
  have "c @ ''_y'' \<noteq> c" by simp
  moreover have "(if c @ ''_y'' \<in> A then (c @ ''_y'') @ ''_y'' else c @ ''_y'') =
        (if c \<in> A then c @ ''_y'' else c)"
    using c by auto
  ultimately show ?l
    unfolding new_duplicate_distinct[OF assms] using c(1,3) by blast
qed

lemma left_cross:
  "list_ex (\<lambda>c. c \<in> X \<and> c \<notin> set lcols)
     (map (\<lambda>c. if c \<notin> K \<and> c \<in> B then c @ ''_x'' else c) lcols) \<longleftrightarrow>
   (\<exists>c \<in> set lcols. c \<notin> K \<and> c \<in> B \<and> c @ ''_x'' \<in> X \<and> c @ ''_x'' \<notin> set lcols)"
  unfolding list_ex_iff by (auto split: if_splits)

lemma right_cross:
  "list_ex (\<lambda>c. c \<in> A \<and> c \<notin> set rn)
     (map (\<lambda>c. if c \<in> A then c @ ''_y'' else c) rn) \<longleftrightarrow>
   (\<exists>c \<in> set rn. c \<in> A \<and> c @ ''_y'' \<in> A \<and> c @ ''_y'' \<notin> set rn)"
  unfolding list_ex_iff by (auto split: if_splits)

lemma suffix_clash_taken:
  assumes dl: "distinct lcols" and dr: "distinct rcols" and sub: "set ks \<subseteq> set lcols"
  shows "suffix_clash lcols rcols ks \<longleftrightarrow> suffix_taken (set ks) (set lcols) (set rcols)"
proof -
  let ?A = "set lcols" and ?B = "set rcols" and ?K = "set ks"
  let ?x = "\<lambda>c. c @ ''_x''" and ?y = "\<lambda>c. c @ ''_y''"
  have x: "(\<exists>c \<in> ?A. c \<notin> ?K \<and> c \<in> ?B \<and> ?x c \<in> ?A \<and> (?x c \<in> ?K \<or> ?x c \<notin> ?B)) \<or>
           (\<exists>c \<in> ?A. c \<notin> ?K \<and> c \<in> ?B \<and> ?x c \<in> ?B - ?K \<and> ?x c \<notin> ?A) \<longleftrightarrow>
           (\<exists>c. c \<in> ?A \<and> c \<in> ?B \<and> c \<notin> ?K \<and> unsuffixed ?K ?A ?B (?x c))"
    unfolding unsuffixed_def using sub by blast
  have y: "(\<exists>c \<in> ?B - ?K. c \<in> ?A \<and> ?y c \<in> ?B - ?K \<and> ?y c \<notin> ?A) \<or>
           (\<exists>c \<in> ?B - ?K. c \<in> ?A \<and> ?y c \<in> ?A \<and> ?y c \<notin> ?B - ?K) \<longleftrightarrow>
           (\<exists>c. c \<in> ?A \<and> c \<in> ?B \<and> c \<notin> ?K \<and> unsuffixed ?K ?A ?B (?y c))"
    unfolding unsuffixed_def using sub by blast
  have "suffix_clash lcols rcols ks \<longleftrightarrow>
      ((\<exists>c \<in> ?A. c \<notin> ?K \<and> c \<in> ?B \<and> ?x c \<in> ?A \<and> (?x c \<in> ?K \<or> ?x c \<notin> ?B)) \<or>
       (\<exists>c \<in> ?A. c \<notin> ?K \<and> c \<in> ?B \<and> ?x c \<in> ?B - ?K \<and> ?x c \<notin> ?A)) \<or>
      ((\<exists>c \<in> ?B - ?K. c \<in> ?A \<and> ?y c \<in> ?B - ?K \<and> ?y c \<notin> ?A) \<or>
       (\<exists>c \<in> ?B - ?K. c \<in> ?A \<and> ?y c \<in> ?A \<and> ?y c \<notin> ?B - ?K))"
    unfolding suffix_clash_def left_duplicate[OF dl]
      right_duplicate[OF distinct_nonkey_labels[OF dr]] left_cross right_cross
    unfolding set_nonkey_labels
    by blast
  also have "\<dots> \<longleftrightarrow> suffix_taken ?K ?A ?B"
    unfolding x y suffix_taken_def by blast
  finally show ?thesis .
qed

lemma unsuffixed_sym: "unsuffixed K A B c = unsuffixed K B A c"
  unfolding unsuffixed_def by blast

lemma suffix_taken_sym: "suffix_taken K A B = suffix_taken K B A"
  unfolding suffix_taken_def unsuffixed_sym[of K A B] by blast

lemma joined_Inr_sym:
  assumes wl: "distinct (df_columns L)" and wr: "distinct (df_columns R)"
    and d: "is_dict m" and dv: "distinct (map snd m)"
  shows "(\<exists>J. joined L R m lf rf = Inr J) \<longleftrightarrow>
     m \<noteq> [] \<and> set (map fst m) = set (map snd m) \<and>
     set (map fst m) \<subseteq> set (df_columns L) \<and> set (map fst m) \<subseteq> set (df_columns R) \<and>
     \<not> list_ex (\<lambda>c. c \<in> set (df_columns L) \<or> c \<in> set (df_columns R)) reserved_labels \<and>
     \<not> dataset_taken (set (map fst m)) (set (df_columns L)) (set (df_columns R)) \<and>
     \<not> suffix_taken (set (map fst m)) (set (df_columns L)) (set (df_columns R))"
proof -
  let ?f = "rename_label m" and ?ks = "map fst m"
  let ?P = "set ?ks = set (map snd m) \<and> set ?ks \<subseteq> set (df_columns L) \<and>
            set ?ks \<subseteq> set (df_columns R)"
  have ck: "check_keys (df_columns L) (map ?f (df_columns R)) ?ks = None \<longleftrightarrow> ?P"
    using ck1[OF d, of "df_columns L" "df_columns R"]
      ck2[OF d dv wl wr] by blast
  have rest: "set (map ?f (df_columns R)) = set (df_columns R)" if ?P
    using that by (intro set_renamed[OF d dv]) auto
  show ?thesis
  proof (cases ?P)
    case False
    then show ?thesis unfolding joined_Inr_iff ck by blast
  next
    case True
    have r: "set (map ?f (df_columns R)) = set (df_columns R)" by (rule rest[OF True])
    from True have eq: "set ?ks = set (map snd m)" and sub: "set ?ks \<subseteq> set (df_columns L)"
      by blast+
    have "inj_on ?f (set (df_columns R))"
      using rename_label_inj[OF d dv eq] by (rule inj_on_subset) simp
    then have dm: "distinct (map ?f (df_columns R))"
      using wr by (simp add: distinct_map)
    have sc: "suffix_clash (df_columns L) (map ?f (df_columns R)) ?ks \<longleftrightarrow>
              suffix_taken (set ?ks) (set (df_columns L)) (set (df_columns R))"
      using suffix_clash_taken[OF wl dm sub] unfolding r .
    from True show ?thesis
      unfolding joined_Inr_iff ck dataset_in_merged_labels dataset_taken_def r sc
      by blast
  qed
qed

lemma same_key_iff:
  "same_key A B ks l r \<longleftrightarrow> (\<forall>k \<in> set ks. cell_at A l k = cell_at B r k)"
  by (simp add: same_key_def key_cells_def)

lemma same_key_swap:
  assumes d: "is_dict m" and dv: "distinct (map snd m)" and eq: "set (map fst m) = set (map snd m)"
    and sk: "same_key A (map (rename_label m) B) (map fst m) l r"
  shows "same_key B (map (rename_label (invert m)) A) (map snd m) r l"
  unfolding same_key_iff
proof
  fix v assume v: "v \<in> set (map snd m)"
  let ?f = "rename_label m" and ?g = "rename_label (invert m)"
  have injf: "inj ?f" by (rule rename_label_inj[OF d dv eq])
  have injg: "inj ?g"
    using rename_label_inj[of "invert m"] d dv eq by (simp add: is_dict_def)
  from v eq have "?f v \<in> set (map fst m)"
    using rename_label_key_iff[OF d dv eq, of v] by simp
  with sk have "cell_at A l (?f v) = cell_at (map ?f B) r (?f v)"
    unfolding same_key_iff by blast
  moreover have "col_index (map ?f B) (?f v) = col_index B v"
    by (rule col_index_map_inj[OF injf])
  moreover have "col_index (map ?g A) (?g (?f v)) = col_index A (?f v)"
    by (rule col_index_map_inj[OF injg])
  ultimately show "cell_at B r v = cell_at (map ?g A) l v"
    using rename_invert_left[OF d dv eq, of v] by (simp add: cell_at_def)
qed

lemma same_key_sym:
  assumes d: "is_dict m" and dv: "distinct (map snd m)" and eq: "set (map fst m) = set (map snd m)"
  shows "same_key A (map (rename_label m) B) (map fst m) l r \<longleftrightarrow>
         same_key B (map (rename_label (invert m)) A) (map snd m) r l"
proof
  assume "same_key A (map (rename_label m) B) (map fst m) l r"
  then show "same_key B (map (rename_label (invert m)) A) (map snd m) r l"
    by (rule same_key_swap[OF d dv eq])
next
  assume "same_key B (map (rename_label (invert m)) A) (map snd m) r l"
  then have "same_key B (map (rename_label (invert m)) A) (map fst (invert m)) r l" by simp
  from same_key_swap[OF _ _ _ this] d dv eq
  show "same_key A (map (rename_label m) B) (map fst m) l r"
    by (simp add: is_dict_def)
qed

lemma flag_iff:
  assumes wf: "wf_world w" and h1: "heap w df1 = Some L" and h2: "heap w df2 = Some R"
  shows "fst (fst (compare_datasets df1 df2 m lf rf w)) \<longleftrightarrow>
     (\<exists>J. joined L R m lf rf = Inr J \<and> df_rows (differences lf rf J) = [] \<and>
          length (df_rows L) = length (df_rows R))"
proof (cases "joined L R m lf rf")
  case (Inl e)
  from run_failure[OF wf h1 h2 Inl] Inl show ?thesis by auto
next
  case (Inr J)
  from run_success[OF wf h1 h2 Inr] Inr show ?thesis by auto
qed

lemma flag_matches:
  assumes fl: "rows_fit L" and fr: "rows_fit R"
  shows "(\<exists>J. joined L R m lf rf = Inr J \<and> df_rows (differences lf rf J) = [] \<and>
            length (df_rows L) = length (df_rows R)) \<longleftrightarrow>
     (\<exists>J. joined L R m lf rf = Inr J) \<and>
     (\<forall>l \<in> set (df_rows L). \<exists>r \<in> set (df_rows R).
        same_key (df_columns L) (map (rename_label m) (df_columns R)) (map fst m) l r) \<and>
     (\<forall>r \<in> set (df_rows R). \<exists>l \<in> set (df_rows L).
        same_key (df_columns L) (map (rename_label m) (df_columns R)) (map fst m) l r) \<and>
     length (df_rows L) = length (df_rows R)"
proof (cases "joined L R m lf rf")
  case (Inl e)
  then show ?thesis by simp
next
  case (Inr J)
  from differences_empty_iff[OF Inr fl fr] Inr show ?thesis by simp
qed

lemma dataset_taken_sym: "dataset_taken K A B = dataset_taken K B A"
  unfolding dataset_taken_def by blast

lemma reserved_sym:
  "list_ex (\<lambda>c. c \<in> A \<or> c \<in> B) cs = list_ex (\<lambda>c. c \<in> B \<or> c \<in> A) cs"
  unfolding list_ex_iff by blast

lemma joinable_invert: "joinable (invert m) rcols lcols = joinable m lcols rcols"
proof (cases "set (map fst m) = set (map snd m)")
  case True
  show ?thesis
    unfolding joinable_def invert_simps True[symmetric]
      dataset_taken_sym[of _ "set rcols" "set lcols"]
      suffix_taken_sym[of _ "set rcols" "set lcols"]
      reserved_sym[of "set rcols" "set lcols"]
    by blast
next
  case False
  then have "set (map snd m) \<noteq> set (map fst m)" by blast
  with False show ?thesis unfolding joinable_def invert_simps by blast
qed

lemma joined_Inr_joinable:
  assumes "distinct (df_columns L)" "distinct (df_columns R)" "is_dict m" "distinct (map snd m)"
  shows "(\<exists>J. joined L R m lf rf = Inr J) \<longleftrightarrow> joinable m (df_columns L) (df_columns R)"
  unfolding joinable_def by (rule joined_Inr_sym[OF assms])

text \<open>The flag is the same with the frames exchanged and the mapping inverted.\<close>

lemma flag_symmetric:
  assumes wl: "wf_frame L" and wr: "wf_frame R"
    and d: "is_dict m" and dv: "distinct (map snd m)"
  shows "(\<exists>J. joined L R m lf rf = Inr J \<and> df_rows (differences lf rf J) = [] \<and>
            length (df_rows L) = length (df_rows R)) \<longleftrightarrow>
         (\<exists>J. joined R L (invert m) lf' rf' = Inr J \<and> df_rows (differences lf' rf' J) = [] \<and>
            length (df_rows R) = length (df_rows L))"
proof -
  have dl: "distinct (df_columns L)" and fl: "rows_fit L"
    and dr: "distinct (df_columns R)" and fr: "rows_fit R"
    using wl wr by (simp_all add: wf_frame_def)
  have d': "is_dict (invert m)" and dv': "distinct (map snd (invert m))"
    using d dv by (simp_all add: is_dict_def)
  have ok1: "(\<exists>J. joined L R m lf rf = Inr J) \<longleftrightarrow> joinable m (df_columns L) (df_columns R)"
    by (rule joined_Inr_joinable[OF dl dr d dv])
  have ok2: "(\<exists>J. joined R L (invert m) lf' rf' = Inr J) \<longleftrightarrow>
             joinable m (df_columns L) (df_columns R)"
    using joined_Inr_joinable[OF dr dl d' dv'] by (simp only: joinable_invert)
  show ?thesis
  proof (cases "joinable m (df_columns L) (df_columns R)")
    case False
    with ok1 ok2 show ?thesis by blast
  next
    case True
    then have eq: "set (map fst m) = set (map snd m)" by (simp add: joinable_def)
    have sk: "same_key (df_columns L) (map (rename_label m) (df_columns R)) (map fst m) l r \<longleftrightarrow>
         same_key (df_columns R) (map (rename_label (invert m)) (df_columns L)) (map snd m) r l"
      for l r by (rule same_key_sym[OF d dv eq])
    have "(\<exists>J. joined L R m lf rf = Inr J \<and> df_rows (differences lf rf J) = [] \<and>
            length (df_rows L) = length (df_rows R)) \<longleftrightarrow>
       (\<forall>l \<in> set (df_rows L). \<exists>r \<in> set (df_rows R).
        same_key (df_columns L) (map (rename_label m) (df_columns R)) (map fst m) l r) \<and>
       (\<forall>r \<in> set (df_rows R). \<exists>l \<in> set (df_rows L).
        same_key (df_columns L) (map (rename_label m) (df_columns R)) (map fst m) l r) \<and>
       length (df_rows L) = length (df_rows R)"
      unfolding flag_matches[OF fl fr] ok1 using True by simp
    moreover have "(\<exists>J. joined R L (invert m) lf' rf' = Inr J \<and>
            df_rows (differences lf' rf' J) = [] \<and>
            length (df_rows R) = length (df_rows L)) \<longleftrightarrow>
       (\<forall>l \<in> set (df_rows L). \<exists>r \<in> set (df_rows R).
        same_key (df_columns L) (map (rename_label m) (df_columns R)) (map fst m) l r) \<and>
       (\<forall>r \<in> set (df_rows R). \<exists>l \<in> set (df_rows L).
        same_key (df_columns L) (map (rename_label m) (df_columns R)) (map fst m) l r) \<and>
       length (df_rows L) = length (df_rows R)"
      unfolding flag_matches[OF fr fl] ok2 sk using True
      by (simp only: invert_simps simp_thms) (metis (lifting))
    ultimately show ?thesis by (simp only:)
  qed
qed

section \<open>Calls on the example inputs\<close>

lemma loaded_wf: "wf_world (loaded L R)"
  by (simp add: loaded_def wf_world_def)

lemma loaded_heap: "heap (loaded L R) 0 = Some L" "heap (loaded L R) (Suc 0) = Some R"
  by (simp_all add: loaded_def)

lemmas engine_defs =
  compare_datasets_def compare_body_def df_copy_def df_rename_def
  pd_merge_def df_set_mapped_def df_select_ne_def df_len_def and_then_def load_def
  new_object_def alloc_def store_def return_val_def throw_def st_error_def
  identical_of_def differences_of_def loaded_def empty_frame_def

lemmas pandas_defs =
  rename_columns_def rename_label_def merge_outer_def merged_columns_def merged_rows_def
  left_rows_def right_only_row_def same_key_def key_cells_def cell_at_def nonkey_labels_def
  nonkey_cells_def map_column_def map_cell_def dataset_labels_def only_in_def in_both_def
  select_ne_def joined_def differences_def classification_def reserved_labels_def
  suffix_clash_def

lemmas example_defs =
  scenario2_left_def scenario2_right_def scenario3_left_def scenario3_right_def
  all_columns_def swap_left_def swap_right_def renamed_left_def renamed_right_def
  missing_left_def missing_right_def missing_only_def suffix_left_def suffix_right_def

section \<open>The objects of the caller\<close>

text \<open>
  A call changes no object that was there before it: the body writes in place only once
  (line 66), into the frame that line 65 has just built.
\<close>

lemma run_none1:
  assumes wf: "wf_world w" and a: "a < next_ref w" and h1: "heap w df1 = None"
  shows "heap (snd (compare_datasets df1 df2 m lf rf w)) a = heap w a"
  using assms
  unfolding compare_datasets_def compare_body_def df_copy_def and_then_def load_def
      new_object_def alloc_def st_error_def
  by simp

lemma run_none2:
  assumes wf: "wf_world w" and a: "a < next_ref w" and h1: "heap w df1 = Some L"
    and h2: "heap w df2 = None"
  shows "heap (snd (compare_datasets df1 df2 m lf rf w)) a = heap w a"
proof -
  have l1: "df1 < next_ref w" using wf h1 by (rule wf_world_lt)
  have "df2 \<noteq> next_ref w \<Longrightarrow> ?thesis"
    using assms l1
    unfolding compare_datasets_def compare_body_def df_copy_def and_then_def load_def
      new_object_def alloc_def st_error_def
    by simp
  moreover have "df2 = next_ref w \<Longrightarrow> ?thesis"
    using assms l1
    unfolding compare_datasets_def compare_body_def df_copy_def df_rename_def
      pd_merge_def df_set_mapped_def df_select_ne_def df_len_def and_then_def load_def
      new_object_def alloc_def store_def return_val_def throw_def st_error_def
    by (auto split: sum.splits)
  ultimately show ?thesis by blast
qed

lemma compare_frame:
  assumes wf: "wf_world w" and a: "a < next_ref w"
  shows "heap (snd (compare_datasets df1 df2 m lf rf w)) a = heap w a"
proof (cases "heap w df1")
  case None
  with wf a show ?thesis by (rule run_none1)
next
  case (Some L)
  note h1 = this
  show ?thesis
  proof (cases "heap w df2")
    case None
    with wf a h1 show ?thesis by (rule run_none2)
  next
    case (Some R)
    show ?thesis
    proof (cases "joined L R m lf rf")
      case (Inl e)
      from run_failure[OF wf h1 Some Inl] a show ?thesis by auto
    next
      case (Inr J)
      from run_success[OF wf h1 Some Inr] a show ?thesis by auto
    qed
  qed
qed

section \<open>The flag\<close>

text \<open>
  The flag of lines 73-76, in the terms of the join: it is true exactly when the body
  reaches line 73 with a join all of whose rows are labelled as in both, and the two
  inputs have the same number of rows.
\<close>

lemma identical_flag_rule:
  assumes wf: "wf_world w" and h1: "heap w df1 = Some L" and h2: "heap w df2 = Some R"
  shows "identical_of (compare_datasets df1 df2 m lf rf w) \<longleftrightarrow>
     (\<exists>J. joined L R m lf rf = Inr J \<and>
          list_all (\<lambda>r. classification J r = Str (in_both lf rf)) (df_rows J)) \<and>
     length (df_rows L) = length (df_rows R)"
  unfolding identical_of_def flag_iff[OF wf h1 h2]
  by (auto simp: differences_rows filter_empty_conv list_all_iff)

text \<open>
  A mapping that is empty, or names a column its frame does not have, never gets through
  the join.
\<close>

lemma invalid_mapping_raises:
  assumes d: "is_dict m"
    and bad: "m = [] \<or> \<not> set (map fst m) \<subseteq> set (df_columns L) \<or>
              \<not> set (map snd m) \<subseteq> set (df_columns R)"
  shows "\<exists>e. joined L R m lf rf = Inl e"
proof (rule ccontr)
  assume "\<not> (\<exists>e. joined L R m lf rf = Inl e)"
  then have "\<exists>J. joined L R m lf rf = Inr J" by (cases "joined L R m lf rf") auto
  then have ne: "m \<noteq> []"
    and ck: "check_keys (df_columns L) (map (rename_label m) (df_columns R)) (map fst m) = None"
    unfolding joined_Inr_iff by blast+
  from ck1[OF d ck] ne bad show False by auto
qed

section \<open>The claims\<close>

text \<open>
  C1. The claim: for every mapping whose keys are columns of the left frame and whose
  values are columns of the right frame, the flag is true exactly when every joined row
  is in both and the two frames have the same number of rows. Where the body reaches
  line 73 this is what it computes (\<open>identical_flag_rule\<close>). It does not reach it for
  the mapping \<open>a \<mapsto> b\<close> between a left frame with the column \<open>a\<close> and a right frame
  with the column \<open>b\<close>, both holding the one row \<open>1\<close>: the call returns \<open>False\<close>,
  although the frames have one row each and the join of the left frame with the right
  frame renamed from \<open>b\<close> to \<open>a\<close> has a single row, in both.
\<close>

theorem renamed_key_never_identical:
  "identical_of (compare_datasets 0 1 [(''a'', ''b'')] ''L'' ''R''
      (loaded renamed_left renamed_right)) = False \<and>
   length (df_rows renamed_left) = length (df_rows renamed_right) \<and>
   joined renamed_left (rename_columns (invert [(''a'', ''b'')]) renamed_right)
       [(''a'', ''a'')] ''L'' ''R'' =
     Inr \<lparr>df_columns = [''a'', ''Dataset''], df_rows = [[Num 1, Str (in_both ''L'' ''R'')]]\<rparr>"
  by (simp add: engine_defs pandas_defs example_defs invert_def)

text \<open>
  C2. The claim: for an entry \<open>(k, v)\<close> with \<open>k \<noteq> v\<close> the right column \<open>v\<close> is renamed to
  \<open>k\<close> before the join, and the join succeeds for every mapping whose keys are left
  columns and whose values are right columns. Line 53 hands the mapping from left to
  right labels to \<^verbatim>\<open>rename\<close>, which renames the columns named like its keys: for the
  mapping \<open>a \<mapsto> b\<close> the right frame keeps its column \<open>b\<close>, the join on \<open>a\<close> raises, and
  the call shows the exception and returns \<open>False\<close> with an empty frame.
\<close>

theorem right_column_not_renamed:
  "rename_columns [(''a'', ''b'')] renamed_right = renamed_right \<and>
   merge_outer renamed_left (rename_columns [(''a'', ''b'')] renamed_right) [''a''] =
     Inl (KeyError ''a'') \<and>
   st_errors (snd (compare_datasets 0 1 [(''a'', ''b'')] ''L'' ''R''
      (loaded renamed_left renamed_right))) = [KeyError ''a''] \<and>
   identical_of (compare_datasets 0 1 [(''a'', ''b'')] ''L'' ''R''
      (loaded renamed_left renamed_right)) = False \<and>
   differences_of (compare_datasets 0 1 [(''a'', ''b'')] ''L'' ''R''
      (loaded renamed_left renamed_right)) = Some empty_frame"
  by (simp add: engine_defs pandas_defs example_defs)

text \<open>
  C3. The claim: a call with an empty mapping, or with a mapping that names a column its
  frame does not have, fails with an error of its own, produces no result and has no
  side effect. The call below, whose mapping names the right column \<open>key\<close> that the
  right frame does not have, returns a result like any other call (\<open>False\<close> and a
  frame) and adds a message to what \<^verbatim>\<open>st.error\<close> shows.
\<close>

theorem invalid_mapping_counterexample:
  "identical_of (compare_datasets 0 1 [(''id'', ''key'')] ''L'' ''R''
      (loaded scenario2_left scenario2_right)) = False \<and>
   differences_of (compare_datasets 0 1 [(''id'', ''key'')] ''L'' ''R''
      (loaded scenario2_left scenario2_right)) = Some empty_frame \<and>
   st_errors (loaded scenario2_left scenario2_right) = [] \<and>
   st_errors (snd (compare_datasets 0 1 [(''id'', ''key'')] ''L'' ''R''
      (loaded scenario2_left scenario2_right))) = [KeyError ''id'']"
  by (simp add: engine_defs pandas_defs example_defs)

text \<open>
  C3, as the code has it: a call with an empty mapping, or with a mapping that names a
  column its frame does not have, is caught by the handler of lines 83-85. It returns
  \<open>False\<close> and a new empty frame, shows exactly one message with \<^verbatim>\<open>st.error\<close>, and
  leaves the two input frames as they were.
\<close>

theorem invalid_mapping_caught:
  assumes wf: "wf_world w" and h1: "heap w df1 = Some L" and h2: "heap w df2 = Some R"
    and d: "is_dict m"
    and bad: "m = [] \<or> \<not> set (map fst m) \<subseteq> set (df_columns L) \<or>
              \<not> set (map snd m) \<subseteq> set (df_columns R)"
  shows "identical_of (compare_datasets df1 df2 m lf rf w) = False \<and>
         differences_of (compare_datasets df1 df2 m lf rf w) = Some empty_frame \<and>
         (\<exists>e. st_errors (snd (compare_datasets df1 df2 m lf rf w)) = st_errors w @ [e]) \<and>
         heap (snd (compare_datasets df1 df2 m lf rf w)) df1 = Some L \<and>
         heap (snd (compare_datasets df1 df2 m lf rf w)) df2 = Some R"
proof -
  from invalid_mapping_raises[OF d bad] obtain e where j: "joined L R m lf rf = Inl e" by blast
  have l: "df1 < next_ref w" "df2 < next_ref w"
    using wf h1 h2 by (auto dest: wf_world_lt)
  from run_failure[OF wf h1 h2 j] obtain a w' where
    r: "compare_datasets df1 df2 m lf rf w = ((False, a), w')"
    and dd: "heap w' a = Some empty_frame"
    and keep: "\<forall>b < next_ref w. heap w' b = heap w b"
    and errs: "st_errors w' = st_errors w @ [e]" by blast
  from keep l h1 h2 have "heap w' df1 = Some L" "heap w' df2 = Some R" by auto
  with dd errs show ?thesis by (simp add: r identical_of_def differences_of_def)
qed

theorem invalid_mapping_caught_witness:
  "wf_world (loaded scenario2_left scenario2_right) \<and> is_dict [(''id'', ''key'')] \<and>
   \<not> set (map snd [(''id'', ''key'')]) \<subseteq> set (df_columns scenario2_right) \<and>
   identical_of (compare_datasets 0 1 [(''id'', ''key'')] ''L'' ''R''
      (loaded scenario2_left scenario2_right)) = False \<and>
   differences_of (compare_datasets 0 1 [(''id'', ''key'')] ''L'' ''R''
      (loaded scenario2_left scenario2_right)) = Some empty_frame \<and>
   heap (snd (compare_datasets 0 1 [(''id'', ''key'')] ''L'' ''R''
      (loaded scenario2_left scenario2_right))) 0 = Some scenario2_left \<and>
   heap (snd (compare_datasets 0 1 [(''id'', ''key'')] ''L'' ''R''
      (loaded scenario2_left scenario2_right))) 1 = Some scenario2_right"
proof -
  have d: "is_dict [(''id'', ''key'')]" by (simp add: is_dict_def)
  have bad: "\<not> set (map snd [(''id'', ''key'')]) \<subseteq> set (df_columns scenario2_right)"
    by (simp add: example_defs)
  from invalid_mapping_caught[where w = "loaded scenario2_left scenario2_right" and ?df1.0 = 0
      and ?df2.0 = 1 and L = scenario2_left and R = scenario2_right
      and m = "[(''id'', ''key'')]" and lf = "''L''" and rf = "''R''"]
  show ?thesis using d bad loaded_wf loaded_heap by simp
qed

text \<open>
  C4. The claim: two missing values in the same key column do not compare equal in the
  join, so they never make a left and a right row one row in both. The join of two
  frames with the single column \<open>id\<close> and the single row of a missing value has one
  row, in both, and the call returns \<open>True\<close>.
\<close>

theorem missing_keys_counterexample:
  "joined missing_only missing_only [(''id'', ''id'')] ''L'' ''R'' =
     Inr \<lparr>df_columns = [''id'', ''Dataset''], df_rows = [[NaN, Str (in_both ''L'' ''R'')]]\<rparr> \<and>
   identical_of (compare_datasets 0 1 [(''id'', ''id'')] ''L'' ''R''
      (loaded missing_only missing_only)) = True"
  by (simp add: engine_defs pandas_defs example_defs)

text \<open>
  C4, as the code has it: two missing values in the same key column compare equal in
  the join. A left row and a right row that both have a missing value in a key column,
  and equal cells in every other key column, make one joined row, classified as in
  both.
\<close>

theorem missing_keys_match:
  assumes j: "joined L R m lf rf = Inr J" and fl: "rows_fit L" and fr: "rows_fit R"
    and l: "l \<in> set (df_rows L)" and r: "r \<in> set (df_rows R)"
    and k: "k \<in> set (map fst m)"
    and nl: "cell_at (df_columns L) l k = NaN"
    and nr: "cell_at (df_columns (rename_columns m R)) r k = NaN"
    and rest: "\<forall>k' \<in> set (map fst m). k' \<noteq> k \<longrightarrow>
        cell_at (df_columns L) l k' = cell_at (df_columns (rename_columns m R)) r k'"
  shows "l @ nonkey_cells (map fst m) (df_columns (rename_columns m R)) r @
           [Str (in_both lf rf)] \<in> set (df_rows J) \<and>
         classification J (l @ nonkey_cells (map fst m) (df_columns (rename_columns m R)) r @
           [Str (in_both lf rf)]) = Str (in_both lf rf)"
proof -
  let ?R = "rename_columns m R" and ?ks = "map fst m"
  let ?r0 = "l @ nonkey_cells ?ks (df_columns ?R) r @ [Str ''both'']"
  have sk: "same_key (df_columns L) (df_columns ?R) ?ks l r"
    unfolding same_key_iff using nl nr rest by metis
  then have "r \<in> set (filter (same_key (df_columns L) (df_columns ?R) ?ks l) (df_rows ?R))"
    using r by simp
  then have "?r0 \<in> set (left_rows L ?R ?ks l)"
    unfolding left_rows_def Let_def by (auto simp: filter_empty_conv)
  then have r0: "?r0 \<in> set (merged_rows L ?R ?ks)"
    using l unfolding merged_rows_def by auto
  have rl: "relabel lf rf ?r0 =
      l @ nonkey_cells ?ks (df_columns ?R) r @ [Str (in_both lf rf)]"
    by (simp add: relabel_def map_cell_labels butlast_append)
  from r0 have "relabel lf rf ?r0 \<in> set (df_rows J)"
    unfolding joined_success(7)[OF j fl fr] by auto
  moreover from joined_row(1)[OF j fl fr r0]
  have "classification J (relabel lf rf ?r0) = Str (in_both lf rf)"
    by (simp add: map_cell_labels)
  ultimately show ?thesis unfolding rl by simp
qed

theorem missing_keys_match_witness:
  "joined missing_left missing_right [(''id'', ''id'')] ''L'' ''R'' =
     Inr \<lparr>df_columns = [''id'', ''v'', ''w'', ''Dataset''],
          df_rows = [[NaN, Num 1, Num 2, Str (in_both ''L'' ''R'')]]\<rparr> \<and>
   cell_at (df_columns missing_left) [NaN, Num 1] ''id'' = NaN \<and>
   cell_at (df_columns (rename_columns [(''id'', ''id'')] missing_right)) [NaN, Num 2] ''id'' = NaN \<and>
   classification \<lparr>df_columns = [''id'', ''v'', ''w'', ''Dataset''],
          df_rows = [[NaN, Num 1, Num 2, Str (in_both ''L'' ''R'')]]\<rparr>
      [NaN, Num 1, Num 2, Str (in_both ''L'' ''R'')] = Str (in_both ''L'' ''R'')"
proof -
  let ?J = "\<lparr>df_columns = [''id'', ''v'', ''w'', ''Dataset''],
          df_rows = [[NaN, Num 1, Num 2, Str (in_both ''L'' ''R'')]]\<rparr>"
  have j: "joined missing_left missing_right [(''id'', ''id'')] ''L'' ''R'' = Inr ?J"
    by (simp add: pandas_defs example_defs)
  have fl: "rows_fit missing_left" and fr: "rows_fit missing_right"
    by (simp_all add: rows_fit_def example_defs)
  have l: "[NaN, Num 1] \<in> set (df_rows missing_left)"
    and r: "[NaN, Num 2] \<in> set (df_rows missing_right)"
    by (simp_all add: example_defs)
  have k: "''id'' \<in> set (map fst [(''id'', ''id'')])" by simp
  have nl: "cell_at (df_columns missing_left) [NaN, Num 1] ''id'' = NaN"
    and nr: "cell_at (df_columns (rename_columns [(''id'', ''id'')] missing_right))
               [NaN, Num 2] ''id'' = NaN"
    by (simp_all add: cell_at_def rename_label_def example_defs)
  have rest: "\<forall>k' \<in> set (map fst [(''id'', ''id'')]). k' \<noteq> ''id'' \<longrightarrow>
        cell_at (df_columns missing_left) [NaN, Num 1] k' =
        cell_at (df_columns (rename_columns [(''id'', ''id'')] missing_right)) [NaN, Num 2] k'"
    by simp
  have nk: "nonkey_cells (map fst [(''id'', ''id'')])
          (df_columns (rename_columns [(''id'', ''id'')] missing_right)) [NaN, Num 2] = [Num 2]"
    by (simp add: nonkey_cells_def rename_label_def example_defs)
  from missing_keys_match[OF j fl fr l r k nl nr rest]
  have "classification ?J [NaN, Num 1, Num 2, Str (in_both ''L'' ''R'')] =
          Str (in_both ''L'' ''R'')"
    unfolding nk by simp
  with j nl nr show ?thesis by (intro conjI)
qed

text \<open>
  C5. The differences returned by a call are the joined rows that are not classified as
  in both, in the columns of the join: every row of the differences is classified as
  only in the left or only in the right file, every joined row that is not among the
  differences is classified as in both, and when the flag is true there are no
  differences. When the body raises there is no joined row and the differences are the
  empty frame.
\<close>

theorem differences_partition:
  assumes wf: "wf_world w" and h1: "heap w df1 = Some L" and h2: "heap w df2 = Some R"
    and fl: "rows_fit L" and fr: "rows_fit R"
  shows "\<exists>D. differences_of (compare_datasets df1 df2 m lf rf w) = Some D \<and>
     (case joined L R m lf rf of
        Inl e \<Rightarrow> D = empty_frame
      | Inr J \<Rightarrow>
          df_columns D = df_columns J \<and>
          df_rows D = filter (\<lambda>r. classification J r \<noteq> Str (in_both lf rf)) (df_rows J) \<and>
          (\<forall>r \<in> set (df_rows D).
             classification J r = Str (only_in lf) \<or> classification J r = Str (only_in rf)) \<and>
          (\<forall>r \<in> set (df_rows J). r \<notin> set (df_rows D) \<longrightarrow>
             classification J r = Str (in_both lf rf))) \<and>
     (identical_of (compare_datasets df1 df2 m lf rf w) \<longrightarrow> df_rows D = [])"
proof (cases "joined L R m lf rf")
  case (Inl e)
  from run_failure[OF wf h1 h2 Inl] Inl show ?thesis
    by (auto simp: differences_of_def identical_of_def empty_frame_def)
next
  case (Inr J)
  let ?D = "differences lf rf J"
  have cls: "classification J r = Str (only_in lf) \<or> classification J r = Str (only_in rf) \<or>
             classification J r = Str (in_both lf rf)" if "r \<in> set (df_rows J)" for r
  proof -
    from that joined_success(7)[OF Inr fl fr] obtain r0
      where r0: "r0 \<in> set (merged_rows L (rename_columns m R) (map fst m))"
        and r: "r = relabel lf rf r0" by auto
    from joined_row[OF Inr fl fr r0] r show ?thesis
      by (auto simp: map_cell_labels)
  qed
  have cols: "df_columns ?D = df_columns J" by (simp add: differences_def select_ne_def)
  have rows: "df_rows ?D = filter (\<lambda>r. classification J r \<noteq> Str (in_both lf rf)) (df_rows J)"
    by (rule differences_rows)
  have inD: "\<forall>r \<in> set (df_rows ?D).
      classification J r = Str (only_in lf) \<or> classification J r = Str (only_in rf)"
    using cls unfolding rows by auto
  have outD: "\<forall>r \<in> set (df_rows J). r \<notin> set (df_rows ?D) \<longrightarrow>
      classification J r = Str (in_both lf rf)"
    unfolding rows by auto
  from run_success[OF wf h1 h2 Inr] obtain a w' where
    res: "compare_datasets df1 df2 m lf rf w =
            ((df_rows ?D = [] \<and> length (df_rows L) = length (df_rows R), a), w')"
    and hd: "heap w' a = Some ?D" by blast
  have d: "differences_of (compare_datasets df1 df2 m lf rf w) = Some ?D"
    by (simp add: res differences_of_def hd)
  have i: "identical_of (compare_datasets df1 df2 m lf rf w) \<longrightarrow> df_rows ?D = []"
    by (simp add: res identical_of_def)
  show ?thesis
  proof (intro exI[of _ ?D] conjI)
    show "differences_of (compare_datasets df1 df2 m lf rf w) = Some ?D" by (rule d)
    show "identical_of (compare_datasets df1 df2 m lf rf w) \<longrightarrow> df_rows ?D = []" by (rule i)
    show "case joined L R m lf rf of
        Inl e \<Rightarrow> ?D = empty_frame
      | Inr J \<Rightarrow>
          df_columns ?D = df_columns J \<and>
          df_rows ?D = filter (\<lambda>r. classification J r \<noteq> Str (in_both lf rf)) (df_rows J) \<and>
          (\<forall>r \<in> set (df_rows ?D).
             classification J r = Str (only_in lf) \<or> classification J r = Str (only_in rf)) \<and>
          (\<forall>r \<in> set (df_rows J). r \<notin> set (df_rows ?D) \<longrightarrow>
             classification J r = Str (in_both lf rf))"
      unfolding Inr sum.case using cols rows inD outD by blast
  qed
qed

theorem differences_partition_witness:
  "wf_world (loaded scenario2_left scenario2_right) \<and>
   rows_fit scenario2_left \<and> rows_fit scenario2_right \<and>
   joined scenario2_left scenario2_right all_columns ''L'' ''R'' =
     Inr \<lparr>df_columns = [''id'', ''v'', ''Dataset''],
          df_rows = [[Num 1, Str ''a'', Str ''Only in L''], [Num 1, Str ''z'', Str ''Only in R'']]\<rparr> \<and>
   differences_of (compare_datasets 0 1 all_columns ''L'' ''R''
       (loaded scenario2_left scenario2_right)) =
     Some \<lparr>df_columns = [''id'', ''v'', ''Dataset''],
          df_rows = [[Num 1, Str ''a'', Str ''Only in L''], [Num 1, Str ''z'', Str ''Only in R'']]\<rparr>"
proof -
  have j: "joined scenario2_left scenario2_right all_columns ''L'' ''R'' =
     Inr \<lparr>df_columns = [''id'', ''v'', ''Dataset''],
          df_rows = [[Num 1, Str ''a'', Str ''Only in L''], [Num 1, Str ''z'', Str ''Only in R'']]\<rparr>"
    by (simp add: pandas_defs example_defs)
  have fl: "rows_fit scenario2_left" and fr: "rows_fit scenario2_right"
    by (simp_all add: rows_fit_def example_defs)
  from differences_partition[OF loaded_wf loaded_heap fl fr, of all_columns "''L''" "''R''"]
  obtain D where d: "differences_of (compare_datasets 0 1 all_columns ''L'' ''R''
       (loaded scenario2_left scenario2_right)) = Some D"
    and c: "df_columns D = [''id'', ''v'', ''Dataset'']"
    and r: "df_rows D = [[Num 1, Str ''a'', Str ''Only in L''], [Num 1, Str ''z'', Str ''Only in R'']]"
    unfolding j sum.case
    by (auto simp: classification_def cell_at_def in_both_def)
  from c r have "D = \<lparr>df_columns = [''id'', ''v'', ''Dataset''],
          df_rows = [[Num 1, Str ''a'', Str ''Only in L''], [Num 1, Str ''z'', Str ''Only in R'']]\<rparr>"
    by (cases D) simp
  with d j fl fr loaded_wf show ?thesis by simp
qed

text \<open>
  C6. For two sets of column names the matcher returns their intersection, the left set
  without the right one and the right set without the left one; the three are pairwise
  disjoint and their union is the union of the two sets.
\<close>

theorem get_matching_columns_partition:
  "get_matching_columns A B = (A \<inter> B, A - B, B - A) \<and>
   (A \<inter> B) \<inter> (A - B) = {} \<and> (A \<inter> B) \<inter> (B - A) = {} \<and> (A - B) \<inter> (B - A) = {} \<and>
   (A \<inter> B) \<union> (A - B) \<union> (B - A) = A \<union> B"
  by (auto simp: get_matching_columns_def)

text \<open>
  C7. After a call the two input frames are what they were, columns, rows and cells, and
  so is every other object the caller had: the engine writes only into objects it has
  built itself.
\<close>

theorem inputs_unchanged:
  assumes wf: "wf_world w" and h1: "heap w df1 = Some L" and h2: "heap w df2 = Some R"
  shows "heap (snd (compare_datasets df1 df2 m lf rf w)) df1 = Some L \<and>
         heap (snd (compare_datasets df1 df2 m lf rf w)) df2 = Some R \<and>
         (\<forall>a < next_ref w. heap (snd (compare_datasets df1 df2 m lf rf w)) a = heap w a)"
proof -
  have "df1 < next_ref w" "df2 < next_ref w"
    using wf h1 h2 by (auto dest: wf_world_lt)
  then show ?thesis
    using compare_frame[OF wf] h1 h2 by simp
qed

theorem inputs_unchanged_witness:
  "wf_world (loaded scenario2_left scenario2_right) \<and>
   heap (loaded scenario2_left scenario2_right) 0 = Some scenario2_left \<and>
   heap (loaded scenario2_left scenario2_right) 1 = Some scenario2_right \<and>
   heap (snd (compare_datasets 0 1 all_columns ''L'' ''R''
           (loaded scenario2_left scenario2_right))) 0 = Some scenario2_left \<and>
   heap (snd (compare_datasets 0 1 all_columns ''L'' ''R''
           (loaded scenario2_left scenario2_right))) 1 = Some scenario2_right"
  using inputs_unchanged[where w = "loaded scenario2_left scenario2_right" and ?df1.0 = 0
      and ?df2.0 = 1 and L = scenario2_left and R = scenario2_right and m = all_columns
      and lf = "''L''" and rf = "''R''"] loaded_wf loaded_heap
  by simp

text \<open>
  C8. A second call with the same frames, mapping and file names, made in the world the
  first call has left behind, returns the same flag and differences that hold the same
  columns and rows as those of the first call.
\<close>

theorem compare_twice:
  assumes wf: "wf_world w" and h1: "heap w df1 = Some L" and h2: "heap w df2 = Some R"
  shows "identical_of (compare_datasets df1 df2 m lf rf
                         (snd (compare_datasets df1 df2 m lf rf w))) =
         identical_of (compare_datasets df1 df2 m lf rf w) \<and>
         differences_of (compare_datasets df1 df2 m lf rf
                         (snd (compare_datasets df1 df2 m lf rf w))) =
         differences_of (compare_datasets df1 df2 m lf rf w) \<and>
         differences_of (compare_datasets df1 df2 m lf rf w) \<noteq> None"
proof -
  have l: "df1 < next_ref w" "df2 < next_ref w"
    using wf h1 h2 by (auto dest: wf_world_lt)
  show ?thesis
  proof (cases "joined L R m lf rf")
    case (Inl e)
    from run_failure[OF wf h1 h2 Inl] obtain a w' where
      r1: "compare_datasets df1 df2 m lf rf w = ((False, a), w')"
      and d1: "heap w' a = Some empty_frame" and wf': "wf_world w'"
      and keep: "\<forall>b < next_ref w. heap w' b = heap w b" by blast
    have h1': "heap w' df1 = Some L" and h2': "heap w' df2 = Some R"
      using keep l h1 h2 by auto
    from run_failure[OF wf' h1' h2' Inl] obtain a' w'' where
      r2: "compare_datasets df1 df2 m lf rf w' = ((False, a'), w'')"
      and d2: "heap w'' a' = Some empty_frame" by blast
    show ?thesis by (simp add: r1 r2 d1 d2 identical_of_def differences_of_def)
  next
    case (Inr J)
    let ?b = "df_rows (differences lf rf J) = [] \<and> length (df_rows L) = length (df_rows R)"
    from run_success[OF wf h1 h2 Inr] obtain a w' where
      r1: "compare_datasets df1 df2 m lf rf w = ((?b, a), w')"
      and d1: "heap w' a = Some (differences lf rf J)" and wf': "wf_world w'"
      and keep: "\<forall>b < next_ref w. heap w' b = heap w b" by blast
    have h1': "heap w' df1 = Some L" and h2': "heap w' df2 = Some R"
      using keep l h1 h2 by auto
    from run_success[OF wf' h1' h2' Inr] obtain a' w'' where
      r2: "compare_datasets df1 df2 m lf rf w' = ((?b, a'), w'')"
      and d2: "heap w'' a' = Some (differences lf rf J)" by blast
    show ?thesis by (simp add: r1 r2 d1 d2 identical_of_def differences_of_def)
  qed
qed

theorem compare_twice_witness:
  "wf_world (loaded scenario2_left scenario2_right) \<and>
   differences_of (compare_datasets 0 1 all_columns ''L'' ''R''
       (snd (compare_datasets 0 1 all_columns ''L'' ''R''
               (loaded scenario2_left scenario2_right)))) =
   Some \<lparr>df_columns = [''id'', ''v'', ''Dataset''],
          df_rows = [[Num 1, Str ''a'', Str ''Only in L''], [Num 1, Str ''z'', Str ''Only in R'']]\<rparr> \<and>
   identical_of (compare_datasets 0 1 all_columns ''L'' ''R''
       (snd (compare_datasets 0 1 all_columns ''L'' ''R''
               (loaded scenario2_left scenario2_right)))) = False"
proof -
  have "differences_of (compare_datasets 0 1 all_columns ''L'' ''R''
       (loaded scenario2_left scenario2_right)) =
     Some \<lparr>df_columns = [''id'', ''v'', ''Dataset''],
          df_rows = [[Num 1, Str ''a'', Str ''Only in L''], [Num 1, Str ''z'', Str ''Only in R'']]\<rparr>"
    by (simp add: engine_defs pandas_defs example_defs)
  moreover have "identical_of (compare_datasets 0 1 all_columns ''L'' ''R''
       (loaded scenario2_left scenario2_right)) = False"
    by (simp add: engine_defs pandas_defs example_defs)
  ultimately show ?thesis
    using compare_twice[where w = "loaded scenario2_left scenario2_right" and ?df1.0 = 0
      and ?df2.0 = 1 and L = scenario2_left and R = scenario2_right and m = all_columns
      and lf = "''L''" and rf = "''R''"] loaded_wf loaded_heap
    by simp
qed

text \<open>
  A join of a left frame with the columns \<open>k\<close>, \<open>v\<close> and a right frame with the columns
  \<open>k\<close>, \<open>v\<close>, \<open>v_x\<close> on the key \<open>k\<close> turns the left \<open>v\<close> into \<open>v_x\<close>, a label of the
  right frame. It is refused in either order of the frames, and both calls return
  \<open>False\<close>.
\<close>

lemma suffix_refused_both_ways:
  "merge_outer suffix_left (rename_columns [(''k'', ''k'')] suffix_right) [''k''] =
     Inl SuffixClash \<and>
   merge_outer suffix_right (rename_columns (invert [(''k'', ''k'')]) suffix_left) [''k''] =
     Inl SuffixClash \<and>
   identical_of (compare_datasets 0 1 [(''k'', ''k'')] ''L'' ''R''
      (loaded suffix_left suffix_right)) = False \<and>
   identical_of (compare_datasets 1 0 (invert [(''k'', ''k'')]) ''R'' ''L''
      (loaded suffix_left suffix_right)) = False"
  by (simp add: engine_defs pandas_defs example_defs invert_def)

text \<open>
  C9. For frames with unique labels and a mapping that gives no two keys the same value,
  the flag of a call equals the flag of the call with the two frames exchanged and the
  mapping inverted, whatever the file names: either both calls end in the handler, or
  both join and the rows that match are the same.
\<close>

theorem identical_symmetric:
  assumes wf: "wf_world w" and h1: "heap w df1 = Some L" and h2: "heap w df2 = Some R"
    and wl: "wf_frame L" and wr: "wf_frame R"
    and d: "is_dict m" and dv: "distinct (map snd m)"
  shows "identical_of (compare_datasets df1 df2 m lf rf w) =
         identical_of (compare_datasets df2 df1 (invert m) lf' rf' w)"
  unfolding identical_of_def flag_iff[OF wf h1 h2] flag_iff[OF wf h2 h1]
  by (rule flag_symmetric[OF wl wr d dv])

theorem identical_symmetric_witness:
  "wf_world (loaded swap_left swap_right) \<and> wf_frame swap_left \<and> wf_frame swap_right \<and>
   is_dict [(''a'', ''b''), (''b'', ''a'')] \<and>
   identical_of (compare_datasets 0 1 [(''a'', ''b''), (''b'', ''a'')] ''L'' ''R''
                   (loaded swap_left swap_right)) = True \<and>
   identical_of (compare_datasets 1 0 (invert [(''a'', ''b''), (''b'', ''a'')]) ''R'' ''L''
                   (loaded swap_left swap_right)) = True"
proof -
  have wl: "wf_frame swap_left" and wr: "wf_frame swap_right"
    by (simp_all add: wf_frame_def rows_fit_def example_defs)
  have d: "is_dict [(''a'', ''b''), (''b'', ''a'')]" by (simp add: is_dict_def)
  have dv: "distinct (map snd [(''a'', ''b''), (''b'', ''a'')])" by simp
  have "identical_of (compare_datasets 0 1 [(''a'', ''b''), (''b'', ''a'')] ''L'' ''R''
                   (loaded swap_left swap_right)) = True"
    by (simp add: engine_defs pandas_defs example_defs)
  with identical_symmetric[where w = "loaded swap_left swap_right" and ?df1.0 = 0
      and ?df2.0 = 1 and L = swap_left and R = swap_right
      and m = "[(''a'', ''b''), (''b'', ''a'')]"
      and lf = "''L''" and rf = "''R''" and lf' = "''R''" and rf' = "''L''"]
  show ?thesis using wl wr d dv loaded_wf loaded_heap by simp
qed

text \<open>
  C10. A false flag does not mean that there are differences. With the same row twice on
  the left and once on the right, and every column mapped to itself, both joined rows
  are classified as in both, the call returns \<open>False\<close> because the frames have two
  rows and one, and the differences it returns have no row.
\<close>

theorem not_identical_without_differences:
  "identical_of (compare_datasets 0 1 all_columns ''L'' ''R''
      (loaded scenario3_left scenario3_right)) = False \<and>
   differences_of (compare_datasets 0 1 all_columns ''L'' ''R''
      (loaded scenario3_left scenario3_right)) =
     Some \<lparr>df_columns = [''id'', ''v'', ''Dataset''], df_rows = []\<rparr> \<and>
   joined scenario3_left scenario3_right all_columns ''L'' ''R'' =
     Inr \<lparr>df_columns = [''id'', ''v'', ''Dataset''],
          df_rows = [[Num 1, Str ''a'', Str (in_both ''L'' ''R'')],
                     [Num 1, Str ''a'', Str (in_both ''L'' ''R'')]]\<rparr> \<and>
   length (df_rows scenario3_left) = 2 \<and> length (df_rows scenario3_right) = 1"
  by (simp add: engine_defs pandas_defs example_defs)

end
